theory Spec2Isabelle
  imports Main "HOL-Library.AList"
begin

section \<open>The Python values the configuration loader handles\<close>

text \<open>
  This theory embeds \<^verbatim>\<open>ec2_config.py\<close>: the class \<^verbatim>\<open>EC2Secrets\<close> with its methods
  \<^verbatim>\<open>load\<close>, \<^verbatim>\<open>_load_env_file\<close>, \<^verbatim>\<open>_load_firebase_config\<close>, \<^verbatim>\<open>_build_config\<close> and its
  accessors. A Python \<^verbatim>\<open>str\<close> is a \<^typ>\<open>string\<close>; a \<^typ>\<open>char\<close> stands for a code point
  below 256, which covers every character the loader itself inspects. The process
  environment \<^verbatim>\<open>os.environ\<close> is a map from names to values and is passed explicitly.
\<close>

datatype pyfloat = FloatNum int int | FloatInf | FloatNegInf | FloatNaN

datatype pyval =
    PNone
  | PBool bool
  | PInt int
  | PFloat pyfloat
  | PStr string
  | PList "pyval list"
  | PDict "(string \<times> pyval) list"

text \<open>
  \<open>FloatNum m e\<close> is the double \<open>m * 2 ^ e\<close>. A \<^verbatim>\<open>dict\<close> is an association list in
  insertion order with distinct keys; \<^const>\<open>AList.update\<close> is item assignment (replace
  in place, or append) and \<^const>\<open>map_of\<close> is lookup.
\<close>

fun truthy :: "pyval \<Rightarrow> bool" where
  "truthy PNone = False"
| "truthy (PBool b) = b"
| "truthy (PInt n) = (n \<noteq> 0)"
| "truthy (PFloat (FloatNum m e)) = (m \<noteq> 0)"
| "truthy (PFloat f) = True"
| "truthy (PStr s) = (s \<noteq> [])"
| "truthy (PList xs) = (xs \<noteq> [])"
| "truthy (PDict d) = (d \<noteq> [])"

datatype error = ValueError | TypeError | KeyError string

text \<open>\<^verbatim>\<open>obj[key] = value\<close>: only a \<^verbatim>\<open>dict\<close> accepts a string key.\<close>

fun py_setitem :: "pyval \<Rightarrow> string \<Rightarrow> pyval \<Rightarrow> error + pyval" where
  "py_setitem (PDict d) k v = Inr (PDict (AList.update k v d))"
| "py_setitem other k v = Inl TypeError"

fun py_len :: "pyval \<Rightarrow> nat option" where
  "py_len (PStr s) = Some (length s)"
| "py_len (PList xs) = Some (length xs)"
| "py_len (PDict d) = Some (length d)"
| "py_len other = None"

section \<open>String methods\<close>

text \<open>The characters \<^verbatim>\<open>str.strip()\<close> removes when called without argument.\<close>

definition whitespace :: "char list" where
  "whitespace = [CHR 0x09, CHR 0x0A, CHR 0x0B, CHR 0x0C, CHR 0x0D, CHR 0x1C, CHR 0x1D,
     CHR 0x1E, CHR 0x1F, CHR 0x20, CHR 0x85, CHR 0xA0]"

definition strip_chars :: "char list \<Rightarrow> string \<Rightarrow> string" where
  "strip_chars cs s =
     rev (dropWhile (\<lambda>c. c \<in> set cs) (rev (dropWhile (\<lambda>c. c \<in> set cs) s)))"

definition strip :: "string \<Rightarrow> string" where
  "strip s = strip_chars whitespace s"

text \<open>\<^verbatim>\<open>s.split(sep, 1)\<close> for a string that contains the separator.\<close>

definition split_once :: "char \<Rightarrow> string \<Rightarrow> string \<times> string" where
  "split_once sep s = (takeWhile (\<lambda>c. c \<noteq> sep) s, tl (dropWhile (\<lambda>c. c \<noteq> sep) s))"

definition lower_char :: "char \<Rightarrow> char" where
  "lower_char c =
     (let n = (of_char c :: nat)
      in if (65 \<le> n \<and> n \<le> 90) \<or> (192 \<le> n \<and> n \<le> 222 \<and> n \<noteq> 215)
         then char_of (n + 32) else c)"

definition lower :: "string \<Rightarrow> string" where
  "lower s = map lower_char s"

text \<open>
  \<^verbatim>\<open>int(s)\<close> in base ten: blanks around the literal, one optional sign, decimal digits
  with single underscores between them. \<open>None\<close> is \<^verbatim>\<open>ValueError\<close>. The interpreter's
  configurable cap on the length of a literal is left out.
\<close>

definition int_space :: "char list" where
  "int_space = [CHR 0x09, CHR 0x0A, CHR 0x0B, CHR 0x0C, CHR 0x0D, CHR 0x20, CHR 0x85, CHR 0xA0]"

definition is_digit :: "char \<Rightarrow> bool" where
  "is_digit c = (48 \<le> (of_char c :: nat) \<and> (of_char c :: nat) \<le> 57)"

definition digit_val :: "char \<Rightarrow> nat" where
  "digit_val c = of_char c - 48"

fun scan_digits :: "nat \<Rightarrow> string \<Rightarrow> nat option" where
  "scan_digits acc [] = Some acc"
| "scan_digits acc (c # cs) =
     (if is_digit c then scan_digits (10 * acc + digit_val c) cs
      else if c = CHR ''_'' then
        (case cs of
           [] \<Rightarrow> None
         | d # ds \<Rightarrow> if is_digit d then scan_digits (10 * acc + digit_val d) ds else None)
      else if list_all (\<lambda>x. x \<in> set int_space) (c # cs) then Some acc
      else None)"

definition py_int :: "string \<Rightarrow> int option" where
  "py_int s =
     (case dropWhile (\<lambda>c. c \<in> set int_space) s of
        [] \<Rightarrow> None
      | c # cs \<Rightarrow>
          (let neg = (c = CHR ''-'');
               body = (if c = CHR ''+'' \<or> c = CHR ''-'' then cs else c # cs)
           in case body of
                [] \<Rightarrow> None
              | d # ds \<Rightarrow>
                  if is_digit d
                  then map_option (\<lambda>n. if neg then - int n else int n)
                         (scan_digits (digit_val d) ds)
                  else None))"

section \<open>The process environment and the filesystem\<close>

type_synonym environ = "string \<rightharpoonup> string"

text \<open>\<^verbatim>\<open>os.getenv(name, default)\<close>; \<^verbatim>\<open>os.getenv(name)\<close> is the map itself.\<close>

definition getenv_default :: "environ \<Rightarrow> string \<Rightarrow> string \<Rightarrow> string" where
  "getenv_default env name dflt = (case env name of None \<Rightarrow> dflt | Some v \<Rightarrow> v)"

text \<open>
  \<^verbatim>\<open>os.environ[key] = value\<close> raises for an empty name and for a NUL character in the
  name or the value (a name with \<^verbatim>\<open>=\<close> cannot reach it from the parser below).
\<close>

definition putenv_ok :: "string \<Rightarrow> string \<Rightarrow> bool" where
  "putenv_ok key val = (key \<noteq> [] \<and> CHR 0x00 \<notin> set key \<and> CHR 0x00 \<notin> set val)"

text \<open>
  A path that exists is either a text file with its decoded content or something
  \<^verbatim>\<open>open\<close> fails on (a directory, a file the process may not read).
\<close>

datatype fsentry = TextFile string | Unreadable

type_synonym filesystem = "string \<rightharpoonup> fsentry"

definition path_exists :: "filesystem \<Rightarrow> string \<Rightarrow> bool" where
  "path_exists fs p = (fs p \<noteq> None)"

text \<open>
  Iterating over a file opened in text mode: the content is cut at every \<^verbatim>\<open>\n\<close> and
  \<^verbatim>\<open>\r\<close>. The terminators are dropped here, since the parser strips every line first;
  the empty line this yields between the two characters of \<^verbatim>\<open>\r\n\<close> is one the parser
  skips.
\<close>

fun split_lines :: "string \<Rightarrow> string \<Rightarrow> string list" where
  "split_lines cur [] = (if cur = [] then [] else [rev cur])"
| "split_lines cur (c # cs) =
     (if c = CHR 0x0A \<or> c = CHR 0x0D then rev cur # split_lines [] cs
      else split_lines (c # cur) cs)"

definition file_lines :: "string \<Rightarrow> string list" where
  "file_lines content = split_lines [] content"

section \<open>\<^verbatim>\<open>EC2Secrets._load_env_file\<close>\<close>

text \<open>
  One line of a \<^verbatim>\<open>.env\<close> file: \<open>None\<close> when the line is skipped, otherwise the key and
  the value that the line assigns.
\<close>

definition parse_env_line :: "string \<Rightarrow> (string \<times> string) option" where
  "parse_env_line raw =
     (let line = strip raw
      in if line = [] \<or> take 1 line = ''#'' then None
         else if CHR ''='' \<in> set line then
           (let (key, val) = split_once CHR ''='' line
            in Some (strip key, strip_chars [CHR 0x27] (strip_chars [CHR 0x22] (strip val))))
         else None)"

text \<open>
  The loop over the lines. An assignment the environment refuses raises inside the
  \<^verbatim>\<open>try\<close> block: the handler logs a warning and the remaining lines are never read.
\<close>

fun load_env_lines :: "environ \<Rightarrow> string list \<Rightarrow> environ" where
  "load_env_lines env [] = env"
| "load_env_lines env (raw # rest) =
     (case parse_env_line raw of
        None \<Rightarrow> load_env_lines env rest
      | Some (key, val) \<Rightarrow>
          if putenv_ok key val then load_env_lines (env(key \<mapsto> val)) rest else env)"

definition load_env_file :: "filesystem \<Rightarrow> environ \<Rightarrow> string \<Rightarrow> environ" where
  "load_env_file fs env filepath =
     (case fs filepath of
        Some (TextFile content) \<Rightarrow> load_env_lines env (file_lines content)
      | _ \<Rightarrow> env)"

section \<open>The Python runtime around the loader\<close>

text \<open>
  \<^verbatim>\<open>json.loads\<close> and \<^verbatim>\<open>json.dumps\<close> belong to the standard library, not to this
  repository: the loader is verified for every decoder and encoder. \<open>json_loads\<close> gives
  \<open>None\<close> where the library raises \<^verbatim>\<open>JSONDecodeError\<close>. \<open>pw_dir\<close> is the home
  directory of the password database, if the user has an entry there.
\<close>

record runtime =
  json_loads :: "string \<Rightarrow> pyval option"
  json_dumps :: "pyval \<Rightarrow> string"
  pw_dir :: "string option"

text \<open>
  \<^verbatim>\<open>os.path.expanduser('~' + rest)\<close> for a \<open>rest\<close> that starts with a slash:
  \<^verbatim>\<open>HOME\<close> when it is in the environment, else the password database, else the path
  as it is; trailing slashes of the home directory are dropped.
\<close>

definition expanduser :: "runtime \<Rightarrow> environ \<Rightarrow> string \<Rightarrow> string" where
  "expanduser rt env rest =
     (let rstrip = (\<lambda>h. rev (dropWhile (\<lambda>c. c = CHR ''/'') (rev h)))
      in case env ''HOME'' of
           Some userhome \<Rightarrow> rstrip userhome @ rest
         | None \<Rightarrow>
             (case pw_dir rt of
                None \<Rightarrow> ''~'' @ rest
              | Some userhome \<Rightarrow> rstrip userhome @ rest))"

section \<open>\<^verbatim>\<open>EC2Secrets._load_firebase_config\<close>\<close>

definition load_firebase_config ::
  "runtime \<Rightarrow> filesystem \<Rightarrow> environ \<Rightarrow> string \<Rightarrow> environ" where
  "load_firebase_config rt fs env filepath =
     (case fs filepath of
        Some (TextFile content) \<Rightarrow>
          (case json_loads rt content of
             None \<Rightarrow> env
           | Some firebase_config \<Rightarrow>
               (let dumped = json_dumps rt firebase_config
                in if putenv_ok ''FIREBASE_CONFIG_JSON'' dumped
                   then env(''FIREBASE_CONFIG_JSON'' \<mapsto> dumped) else env))
      | _ \<Rightarrow> env)"

section \<open>\<^verbatim>\<open>EC2Secrets._build_config\<close>\<close>

definition firebase_env_mapping :: "(string \<times> string) list" where
  "firebase_env_mapping =
     [(''type'', ''FIREBASE_TYPE''),
      (''project_id'', ''FIREBASE_PROJECT_ID''),
      (''private_key_id'', ''FIREBASE_PRIVATE_KEY_ID''),
      (''private_key'', ''FIREBASE_PRIVATE_KEY''),
      (''client_email'', ''FIREBASE_CLIENT_EMAIL''),
      (''client_id'', ''FIREBASE_CLIENT_ID''),
      (''auth_uri'', ''FIREBASE_AUTH_URI''),
      (''token_uri'', ''FIREBASE_TOKEN_URI''),
      (''auth_provider_x509_cert_url'', ''FIREBASE_AUTH_PROVIDER_CERT_URL''),
      (''client_x509_cert_url'', ''FIREBASE_CLIENT_CERT_URL''),
      (''web_api_key'', ''FIREBASE_WEB_API_KEY'')]"

text \<open>The first attempt: \<^verbatim>\<open>json.loads\<close> of \<^verbatim>\<open>FIREBASE_CONFIG_JSON\<close>, else \<^verbatim>\<open>{}\<close>.\<close>

definition firebase_from_json :: "runtime \<Rightarrow> environ \<Rightarrow> pyval" where
  "firebase_from_json rt env =
     (case env ''FIREBASE_CONFIG_JSON'' of
        None \<Rightarrow> PDict []
      | Some doc \<Rightarrow>
          if doc = [] then PDict []
          else (case json_loads rt doc of None \<Rightarrow> PDict [] | Some v \<Rightarrow> v))"

text \<open>
  The loop \<^verbatim>\<open>for key, env_var in firebase_env_mapping.items()\<close>. The assignment
  \<^verbatim>\<open>firebase_config[key] = ...\<close> raises \<^verbatim>\<open>TypeError\<close> when the decoded document is
  not a \<^verbatim>\<open>dict\<close>.
\<close>

fun fill_firebase :: "environ \<Rightarrow> pyval \<Rightarrow> (string \<times> string) list \<Rightarrow> error + pyval" where
  "fill_firebase env firebase_config [] = Inr firebase_config"
| "fill_firebase env firebase_config ((key, env_var) # rest) =
     (case env env_var of
        None \<Rightarrow> fill_firebase env firebase_config rest
      | Some v \<Rightarrow>
          if v = [] then fill_firebase env firebase_config rest
          else (case py_setitem firebase_config key (PStr v) of
                  Inl e \<Rightarrow> Inl e
                | Inr firebase_config' \<Rightarrow> fill_firebase env firebase_config' rest))"

text \<open>\<^verbatim>\<open>if os.getenv(env_var): d[key] = os.getenv(env_var)\<close> on a dictionary.\<close>

definition set_if_env :: "environ \<Rightarrow> string \<Rightarrow> string \<Rightarrow> (string \<times> pyval) list \<Rightarrow> (string \<times> pyval) list" where
  "set_if_env env env_var key d =
     (case env env_var of
        None \<Rightarrow> d
      | Some v \<Rightarrow> if v = [] then d else AList.update key (PStr v) d)"

definition admin_config :: "environ \<Rightarrow> (string \<times> pyval) list" where
  "admin_config env =
     set_if_env env ''ADMIN_KEY'' ''key''
       (set_if_env env ''ADMIN_PASSWORD'' ''password''
          (set_if_env env ''ADMIN_EMAIL'' ''email'' []))"

definition aws_config :: "environ \<Rightarrow> (string \<times> pyval) list" where
  "aws_config env =
     (let aws = [(''region'', PStr (getenv_default env ''AWS_DEFAULT_REGION'' ''us-east-1''))]
      in case env ''AWS_ACCESS_KEY_ID'' of
           None \<Rightarrow> aws
         | Some k \<Rightarrow>
             if k = [] then aws
             else AList.update ''secret_access_key''
                    (PStr (getenv_default env ''AWS_SECRET_ACCESS_KEY'' []))
                    (AList.update ''access_key_id'' (PStr k) aws))"

text \<open>The \<^verbatim>\<open>app\<close> literal; \<^verbatim>\<open>int(...)\<close> may raise before the section is stored.\<close>

definition app_config :: "environ \<Rightarrow> error + (string \<times> pyval) list" where
  "app_config env =
     (case py_int (getenv_default env ''APP_PORT'' ''8501'') of
        None \<Rightarrow> Inl ValueError
      | Some port \<Rightarrow>
          Inr [(''mode'', PStr (getenv_default env ''APP_MODE'' ''production'')),
               (''port'', PInt port),
               (''host'', PStr (getenv_default env ''APP_HOST'' ''0.0.0.0'')),
               (''debug'', PBool (lower (getenv_default env ''APP_DEBUG'' ''false'') = ''true''))])"

text \<open>
  \<^verbatim>\<open>_build_config\<close> updates \<^verbatim>\<open>self._config\<close> in place; the result is the dictionary as
  the method leaves it and the exception it ends with, if any.
\<close>

definition build_config ::
  "runtime \<Rightarrow> environ \<Rightarrow> (string \<times> pyval) list \<Rightarrow> (string \<times> pyval) list \<times> error option" where
  "build_config rt env config0 =
     (let c1 = set_if_env env ''ANTHROPIC_API_KEY'' ''ANTHROPIC_API_KEY'' config0;
          fb0 = firebase_from_json rt env
      in case (if \<not> truthy fb0 then fill_firebase env fb0 firebase_env_mapping else Inr fb0) of
           Inl e \<Rightarrow> (c1, Some e)
         | Inr firebase_config \<Rightarrow>
             (let c2 = (if truthy firebase_config
                        then AList.update ''firebase'' firebase_config c1 else c1);
                  admin = admin_config env;
                  c3 = (if admin \<noteq> [] then AList.update ''admin'' (PDict admin) c2 else c2);
                  c4 = AList.update ''aws'' (PDict (aws_config env)) c3
              in case app_config env of
                   Inl e \<Rightarrow> (c4, Some e)
                 | Inr app \<Rightarrow> (AList.update ''app'' (PDict app) c4, None)))"

section \<open>\<^verbatim>\<open>EC2Secrets.load\<close> and the accessors\<close>

record EC2Secrets =
  config :: "(string \<times> pyval) list"
  loaded :: bool

definition EC2Secrets_init :: EC2Secrets where
  "EC2Secrets_init = \<lparr>config = [], loaded = False\<rparr>"

definition env_paths :: "runtime \<Rightarrow> environ \<Rightarrow> string option \<Rightarrow> string option list" where
  "env_paths rt env env_file =
     [env_file,
      Some ''.env'',
      Some ''/etc/dbmigration/.env'',
      Some (expanduser rt env ''/.dbmigration/.env''),
      Some ''/opt/dbmigration/.env'']"

definition firebase_paths :: "runtime \<Rightarrow> environ \<Rightarrow> string option \<Rightarrow> string option list" where
  "firebase_paths rt env config_file =
     [config_file,
      Some ''firebase-config.json'',
      Some ''/etc/dbmigration/firebase-config.json'',
      Some (expanduser rt env ''/.dbmigration/firebase-config.json''),
      Some ''/opt/dbmigration/firebase-config.json'']"

text \<open>
  \<^verbatim>\<open>for path in paths: if path and os.path.exists(path): loader(path); break\<close>, for
  either loader.
\<close>

fun load_first ::
  "(environ \<Rightarrow> string \<Rightarrow> environ) \<Rightarrow> filesystem \<Rightarrow> environ \<Rightarrow> string option list \<Rightarrow> environ" where
  "load_first loader fs env [] = env"
| "load_first loader fs env (None # rest) = load_first loader fs env rest"
| "load_first loader fs env (Some path # rest) =
     (if path \<noteq> [] \<and> path_exists fs path then loader env path
      else load_first loader fs env rest)"

definition load ::
  "runtime \<Rightarrow> filesystem \<Rightarrow> string option \<Rightarrow> string option \<Rightarrow> environ \<times> EC2Secrets
     \<Rightarrow> environ \<times> EC2Secrets \<times> error option" where
  "load rt fs env_file config_file st =
     (let (env, self) = st;
          env1 = load_first (load_env_file fs) fs env (env_paths rt env env_file);
          env2 = load_first (load_firebase_config rt fs) fs env1
                   (firebase_paths rt env1 config_file);
          (config', err) = build_config rt env2 (config self)
      in case err of
           Some e \<Rightarrow> (env2, self\<lparr>config := config'\<rparr>, Some e)
         | None \<Rightarrow> (env2, self\<lparr>config := config', loaded := True\<rparr>, None))"

text \<open>Every accessor starts with \<^verbatim>\<open>if not self._loaded: self.load()\<close>.\<close>

definition ensure_loaded ::
  "runtime \<Rightarrow> filesystem \<Rightarrow> environ \<times> EC2Secrets \<Rightarrow> environ \<times> EC2Secrets \<times> error option" where
  "ensure_loaded rt fs st =
     (let (env, self) = st
      in if loaded self then (env, self, None) else load rt fs None None st)"

definition contains ::
  "runtime \<Rightarrow> filesystem \<Rightarrow> string \<Rightarrow> environ \<times> EC2Secrets \<Rightarrow> environ \<times> EC2Secrets \<times> (error + bool)" where
  "contains rt fs key st =
     (case ensure_loaded rt fs st of
        (env, self, Some e) \<Rightarrow> (env, self, Inl e)
      | (env, self, None) \<Rightarrow> (env, self, Inr (map_of (config self) key \<noteq> None)))"

definition getitem ::
  "runtime \<Rightarrow> filesystem \<Rightarrow> string \<Rightarrow> environ \<times> EC2Secrets \<Rightarrow> environ \<times> EC2Secrets \<times> (error + pyval)" where
  "getitem rt fs key st =
     (case ensure_loaded rt fs st of
        (env, self, Some e) \<Rightarrow> (env, self, Inl e)
      | (env, self, None) \<Rightarrow>
          (case map_of (config self) key of
             None \<Rightarrow> (env, self, Inl (KeyError key))
           | Some v \<Rightarrow> (env, self, Inr v)))"

definition get ::
  "runtime \<Rightarrow> filesystem \<Rightarrow> string \<Rightarrow> pyval \<Rightarrow> environ \<times> EC2Secrets \<Rightarrow> environ \<times> EC2Secrets \<times> (error + pyval)" where
  "get rt fs key dflt st =
     (case ensure_loaded rt fs st of
        (env, self, Some e) \<Rightarrow> (env, self, Inl e)
      | (env, self, None) \<Rightarrow>
          (case map_of (config self) key of
             None \<Rightarrow> (env, self, Inr dflt)
           | Some v \<Rightarrow> (env, self, Inr v)))"

section \<open>A concrete runtime for the examples\<close>

text \<open>
  The examples below run the loader on concrete inputs and need a concrete decoder.
  \<open>json_table\<close> lists the documents they use with the values \<^verbatim>\<open>json.loads\<close> gives
  for them; \<open>sample_runtime\<close> decodes these documents and no others, and encodes the
  listed values back to the listed text.
\<close>

definition json_table :: "(string \<times> pyval) list" where
  "json_table =
     [(''{}'', PDict []),
      (''{\"project_id\": \"demo\"}'', PDict [(''project_id'', PStr ''demo'')]),
      (''0'', PInt 0)]"

definition sample_runtime :: runtime where
  "sample_runtime =
     \<lparr>json_loads = map_of json_table,
      json_dumps = (\<lambda>v. case find (\<lambda>(doc, w). w = v) json_table of
                          None \<Rightarrow> [] | Some (doc, w) \<Rightarrow> doc),
      pw_dir = Some ''/root''\<rparr>"

section \<open>Notions the statements use\<close>

text \<open>
  The quote rule as the specification words it: one layer of matching surrounding
  quote characters is removed. The loader does not use it; it is here to be compared
  with what the loader does.
\<close>

definition spec_unquote :: "string \<Rightarrow> string" where
  "spec_unquote v =
     (if 2 \<le> length v \<and> hd v = last v \<and> (hd v = CHR 0x22 \<or> hd v = CHR 0x27)
      then butlast (tl v) else v)"

text \<open>A candidate path that \<^verbatim>\<open>load\<close> stops at: given, not empty, and existing.\<close>

definition usable :: "filesystem \<Rightarrow> string option \<Rightarrow> bool" where
  "usable fs cand = (case cand of None \<Rightarrow> False | Some p \<Rightarrow> p \<noteq> [] \<and> path_exists fs p)"

text \<open>The read \<^verbatim>\<open>secrets[sec][fld]\<close> on the dictionary of sections.\<close>

definition section_field :: "(string \<times> pyval) list \<Rightarrow> string \<Rightarrow> string \<Rightarrow> pyval option" where
  "section_field cfg sec fld =
     (case map_of cfg sec of Some (PDict d) \<Rightarrow> map_of d fld | _ \<Rightarrow> None)"

text \<open>A filesystem with two environment files, for the examples.\<close>

definition two_env_files :: filesystem where
  "two_env_files =
     [''.env'' \<mapsto> TextFile ''A=1'', ''/opt/dbmigration/.env'' \<mapsto> TextFile ''B=2'']"

text \<open>The spellings that equal \<^verbatim>\<open>true\<close> when case is ignored.\<close>

definition true_spellings :: "string list" where
  "true_spellings =
     [a # b # c # d # []. a \<leftarrow> ''tT'', b \<leftarrow> ''rR'', c \<leftarrow> ''uU'', d \<leftarrow> ''eE'']"

text \<open>An environment that sets one variable of each optional section.\<close>

definition full_env :: environ where
  "full_env =
     [''ANTHROPIC_API_KEY'' \<mapsto> ''sk-1'', ''FIREBASE_PROJECT_ID'' \<mapsto> ''demo'',
      ''ADMIN_EMAIL'' \<mapsto> ''a@b.c'']"

text \<open>
  The fields of the \<^verbatim>\<open>firebase\<close> section that come from individual variables: one for
  each entry of the table whose variable is set to a non-empty text, in table order.
\<close>

definition individual_fields :: "environ \<Rightarrow> (string \<times> pyval) list" where
  "individual_fields env =
     List.map_filter
       (\<lambda>(key, var). case env var of
                       None \<Rightarrow> None
                     | Some v \<Rightarrow> if v = [] then None else Some (key, PStr v))
       firebase_env_mapping"

text \<open>An environment that sets every variable of the table to \<^verbatim>\<open>x\<close>.\<close>

definition all_firebase_env :: environ where
  "all_firebase_env = map_of (map (\<lambda>(key, var). (var, ''x'')) firebase_env_mapping)"

text \<open>A valid but empty JSON document next to an individual variable.\<close>

definition empty_json_env :: environ where
  "empty_json_env = [''FIREBASE_CONFIG_JSON'' \<mapsto> ''{}'', ''FIREBASE_PROJECT_ID'' \<mapsto> ''p'']"

text \<open>A JSON document with a field next to an individual variable for the same field.\<close>

definition json_and_individual_env :: environ where
  "json_and_individual_env =
     [''FIREBASE_CONFIG_JSON'' \<mapsto> ''{\"project_id\": \"demo\"}'',
      ''FIREBASE_PROJECT_ID'' \<mapsto> ''other'']"

text \<open>
  The variables whose value \<^verbatim>\<open>_build_config\<close> tests for truth before it uses them:
  the API key, the JSON document, the variables of the table, the three admin variables
  and the access key.
\<close>

definition optional_vars :: "string list" where
  "optional_vars =
     ''ANTHROPIC_API_KEY'' # ''FIREBASE_CONFIG_JSON'' # map snd firebase_env_mapping
       @ [''ADMIN_EMAIL'', ''ADMIN_PASSWORD'', ''ADMIN_KEY'', ''AWS_ACCESS_KEY_ID'']"

text \<open>
  Two environments that agree everywhere, except that at \<open>k\<close> the first may have the
  empty text where the second has nothing.
\<close>

definition empty_for_unset :: "string \<Rightarrow> environ \<Rightarrow> environ \<Rightarrow> bool" where
  "empty_for_unset k a b =
     ((\<forall>x. x \<noteq> k \<longrightarrow> a x = b x) \<and> (a k = b k \<or> (a k = Some [] \<and> b k = None)))"

text \<open>An environment whose admin variables are all set to the empty text.\<close>

definition empty_admin_env :: environ where
  "empty_admin_env = [''ADMIN_EMAIL'' \<mapsto> [], ''ADMIN_PASSWORD'' \<mapsto> [], ''ADMIN_KEY'' \<mapsto> []]"


section \<open>Running the loader on concrete inputs\<close>

lemmas eval_defs = load_def env_paths_def firebase_paths_def expanduser_def path_exists_def
  build_config_def set_if_env_def firebase_from_json_def firebase_env_mapping_def
  admin_config_def aws_config_def app_config_def getenv_default_def
  py_int_def int_space_def is_digit_def digit_val_def EC2Secrets_init_def sample_runtime_def
  json_table_def load_env_file_def load_firebase_config_def putenv_ok_def

section \<open>Resolution can abort\<close>

text \<open>
  Claim C1 says that \<^verbatim>\<open>load\<close> returns for every environment and every filesystem. It does
  not: with \<^verbatim>\<open>APP_PORT=abc\<close> in the environment and no file on disk, \<^verbatim>\<open>int('abc')\<close>
  raises \<^verbatim>\<open>ValueError\<close> inside \<^verbatim>\<open>_build_config\<close>, nothing catches it, the \<^verbatim>\<open>app\<close>
  section is never stored and the instance stays unloaded. A second way out: with
  \<^verbatim>\<open>FIREBASE_CONFIG_JSON=0\<close> and \<^verbatim>\<open>FIREBASE_TYPE=x\<close> the decoded document is the number
  zero, and the assignment of the first field to it raises \<^verbatim>\<open>TypeError\<close>.
\<close>

theorem C1_load_raises_on_bad_port:
  "load sample_runtime Map.empty None None ([''APP_PORT'' \<mapsto> ''abc''], EC2Secrets_init) =
     ([''APP_PORT'' \<mapsto> ''abc''],
      \<lparr>config = [(''aws'', PDict [(''region'', PStr ''us-east-1'')])], loaded = False\<rparr>,
      Some ValueError)
   \<and> load sample_runtime Map.empty None None
        ([''FIREBASE_CONFIG_JSON'' \<mapsto> ''0'', ''FIREBASE_TYPE'' \<mapsto> ''x''], EC2Secrets_init) =
     ([''FIREBASE_CONFIG_JSON'' \<mapsto> ''0'', ''FIREBASE_TYPE'' \<mapsto> ''x''],
      \<lparr>config = [], loaded = False\<rparr>,
      Some TypeError)"
  by (simp add: eval_defs)

section \<open>What the string methods do\<close>

text \<open>
  \<^verbatim>\<open>strip\<close> removes a prefix and a suffix made of the given characters, and what is left
  neither starts nor ends with one of them.
\<close>

lemma strip_chars_decomp:
  "\<exists>p q. s = p @ strip_chars cs s @ q \<and> set p \<subseteq> set cs \<and> set q \<subseteq> set cs"
proof -
  define P where "P = (\<lambda>c. c \<in> set cs)"
  define d where "d = dropWhile P s"
  define e where "e = dropWhile P (rev d)"
  have 1: "s = takeWhile P s @ d" by (simp add: d_def)
  have "rev d = takeWhile P (rev d) @ e" by (simp add: e_def)
  then have "rev (rev d) = rev (takeWhile P (rev d) @ e)" by (rule arg_cong)
  then have 2: "d = rev e @ rev (takeWhile P (rev d))" by (simp only: rev_rev_ident rev_append)
  have 3: "set (takeWhile P s) \<subseteq> set cs" using set_takeWhileD[of _ P s] by (auto simp: P_def)
  have 4: "set (rev (takeWhile P (rev d))) \<subseteq> set cs"
    using set_takeWhileD[of _ P "rev d"] by (auto simp: P_def)
  have 5: "strip_chars cs s = rev e" by (simp add: strip_chars_def e_def d_def P_def)
  from 1 2 have "s = takeWhile P s @ rev e @ rev (takeWhile P (rev d))" by simp
  with 3 4 5 show ?thesis by metis
qed

lemma last_dropWhile_eq: "dropWhile P xs \<noteq> [] \<Longrightarrow> last (dropWhile P xs) = last xs"
  by (metis last_appendR takeWhile_dropWhile_id)

lemma strip_chars_ends:
  assumes "strip_chars cs s \<noteq> []"
  shows "hd (strip_chars cs s) \<notin> set cs \<and> last (strip_chars cs s) \<notin> set cs"
proof -
  define P where "P = (\<lambda>c. c \<in> set cs)"
  define d where "d = dropWhile P s"
  define e where "e = dropWhile P (rev d)"
  have 5: "strip_chars cs s = rev e" by (simp add: strip_chars_def e_def d_def P_def)
  with assms have e: "e \<noteq> []" by simp
  have d: "d \<noteq> []"
  proof
    assume "d = []"
    then have "e = []" by (simp add: e_def)
    with e show False by simp
  qed
  have "\<not> P (hd e)" using e unfolding e_def by (rule hd_dropWhile)
  then have A: "last (strip_chars cs s) \<notin> set cs" using e by (simp add: 5 last_rev P_def)
  have "last e = last (rev d)" using e unfolding e_def by (rule last_dropWhile_eq)
  then have "hd (rev e) = hd d" using e d by (simp add: last_rev hd_rev)
  moreover have "\<not> P (hd d)" using d unfolding d_def by (rule hd_dropWhile)
  ultimately have "hd (strip_chars cs s) \<notin> set cs" by (simp add: 5 P_def)
  with A show ?thesis by simp
qed

lemma eq_in_strip: "CHR ''='' \<in> set (strip raw) \<longleftrightarrow> CHR ''='' \<in> set raw"
proof -
  obtain p q where d: "raw = p @ strip raw @ q" "set p \<subseteq> set whitespace" "set q \<subseteq> set whitespace"
    using strip_chars_decomp[of raw whitespace] by (auto simp: strip_def)
  have "CHR ''='' \<notin> set whitespace" by (simp add: whitespace_def)
  with d(2,3) have "CHR ''='' \<notin> set p" "CHR ''='' \<notin> set q" by auto
  moreover have "set raw = set p \<union> set (strip raw) \<union> set q" by (subst d(1)) auto
  ultimately show ?thesis by auto
qed

lemma split_once_first:
  assumes "sep \<notin> set k"
  shows "split_once sep (k @ sep # v) = (k, v)"
proof -
  have "\<And>x. x \<in> set k \<Longrightarrow> x \<noteq> sep" using assms by auto
  then show ?thesis by (simp add: split_once_def takeWhile_append2 dropWhile_append2)
qed

lemma take1_hash: "take 1 line = ''#'' \<longleftrightarrow> line \<noteq> [] \<and> hd line = CHR ''#''"
  by (cases line) simp_all

lemma parse_env_line_None:
  "parse_env_line raw = None \<longleftrightarrow>
     (strip raw = [] \<or> hd (strip raw) = CHR ''#'' \<or> CHR ''='' \<notin> set raw)"
  unfolding parse_env_line_def Let_def take1_hash eq_in_strip
  by (simp split: prod.splits) blast

lemma parse_env_line_Some:
  assumes "parse_env_line raw \<noteq> None" "strip raw = k @ CHR ''='' # v" "CHR ''='' \<notin> set k"
  shows "parse_env_line raw =
           Some (strip k, strip_chars [CHR 0x27] (strip_chars [CHR 0x22] (strip v)))"
proof -
  from assms(1) have "\<not> (strip raw = [] \<or> take 1 (strip raw) = ''#'')" "CHR ''='' \<in> set (strip raw)"
    by (auto simp: parse_env_line_def Let_def split: if_splits)
  then show ?thesis
    unfolding parse_env_line_def Let_def
    by (simp add: assms(2) split_once_first[OF assms(3)])
qed

lemma load_env_lines_all_ok:
  "list_all (\<lambda>l. case parse_env_line l of None \<Rightarrow> True | Some (k, v) \<Rightarrow> putenv_ok k v) ls \<Longrightarrow>
     load_env_lines env ls = env ++ map_of (rev (List.map_filter parse_env_line ls))"
proof (induction ls arbitrary: env)
  case Nil
  then show ?case by (simp add: List.map_filter_simps)
next
  case (Cons l ls)
  from Cons.prems
  have rest: "list_all (\<lambda>l. case parse_env_line l of None \<Rightarrow> True | Some (k, v) \<Rightarrow> putenv_ok k v) ls"
    by simp
  show ?case
  proof (cases "parse_env_line l")
    case None
    with Cons.IH[OF rest] show ?thesis by (simp add: List.map_filter_simps)
  next
    case (Some kv)
    obtain k v where kv: "kv = (k, v)" by (cases kv)
    with Some Cons.prems have ok: "putenv_ok k v" by simp
    have IH: "load_env_lines (env(k \<mapsto> v)) ls =
        (env(k \<mapsto> v)) ++ map_of (rev (List.map_filter parse_env_line ls))"
      using rest by (rule Cons.IH)
    have "env ++ map_of (rev (List.map_filter parse_env_line ls) @ [(k, v)]) =
          (env(k \<mapsto> v)) ++ map_of (rev (List.map_filter parse_env_line ls))"
      by (simp only: map_of_append map_add_assoc[symmetric]) simp
    with IH Some kv ok show ?thesis by (simp add: List.map_filter_simps)
  qed
qed

section \<open>The lines of an environment file\<close>

text \<open>
  Claim C2, as the code has it. A line is skipped exactly when it is empty after
  trimming, starts with \<^verbatim>\<open>#\<close> after trimming, or has no \<^verbatim>\<open>=\<close>. Any other line is cut at
  its first \<^verbatim>\<open>=\<close>; the key is the trimmed text before it; the value is the trimmed text
  after it with every leading and trailing double quote removed and then every leading
  and trailing single quote removed, however many there are and whether or not they
  match. The pair is stored over any earlier value of the key, and if every pair of a
  file is one the environment accepts, the file leaves each key with the value of its last
  line. Trimming removes a prefix and a suffix of the given characters and leaves a text
  that neither starts nor ends with one.
\<close>

theorem C2_env_file_lines:
  "(parse_env_line raw = None \<longleftrightarrow>
      strip raw = [] \<or> hd (strip raw) = CHR ''#'' \<or> CHR ''='' \<notin> set raw)
   \<and> (parse_env_line raw = None \<longrightarrow>
        load_env_lines env (raw # rest) = load_env_lines env rest)
   \<and> (parse_env_line raw \<noteq> None \<and> strip raw = k @ CHR ''='' # v \<and> CHR ''='' \<notin> set k \<longrightarrow>
        (let key = strip k;
             val = strip_chars [CHR 0x27] (strip_chars [CHR 0x22] (strip v))
         in parse_env_line raw = Some (key, val)
            \<and> load_env_lines env (raw # rest) =
                (if putenv_ok key val then load_env_lines (env(key \<mapsto> val)) rest else env)))
   \<and> (list_all (\<lambda>l. case parse_env_line l of None \<Rightarrow> True | Some (a, b) \<Rightarrow> putenv_ok a b) ls \<longrightarrow>
        load_env_lines env ls = env ++ map_of (rev (List.map_filter parse_env_line ls)))
   \<and> (\<exists>p q. s = p @ strip_chars cs s @ q \<and> set p \<subseteq> set cs \<and> set q \<subseteq> set cs)
   \<and> (strip_chars cs s \<noteq> [] \<longrightarrow>
        hd (strip_chars cs s) \<notin> set cs \<and> last (strip_chars cs s) \<notin> set cs)"
proof (intro conjI impI)
  show "parse_env_line raw = None \<longleftrightarrow>
      strip raw = [] \<or> hd (strip raw) = CHR ''#'' \<or> CHR ''='' \<notin> set raw"
    by (rule parse_env_line_None)
next
  assume "parse_env_line raw = None"
  then show "load_env_lines env (raw # rest) = load_env_lines env rest" by simp
next
  assume a: "parse_env_line raw \<noteq> None \<and> strip raw = k @ CHR ''='' # v \<and> CHR ''='' \<notin> set k"
  then have "parse_env_line raw =
           Some (strip k, strip_chars [CHR 0x27] (strip_chars [CHR 0x22] (strip v)))"
    using parse_env_line_Some by blast
  then show "let key = strip k;
             val = strip_chars [CHR 0x27] (strip_chars [CHR 0x22] (strip v))
         in parse_env_line raw = Some (key, val)
            \<and> load_env_lines env (raw # rest) =
                (if putenv_ok key val then load_env_lines (env(key \<mapsto> val)) rest else env)"
    by (simp add: Let_def)
next
  assume "list_all (\<lambda>l. case parse_env_line l of None \<Rightarrow> True | Some (a, b) \<Rightarrow> putenv_ok a b) ls"
  then show "load_env_lines env ls = env ++ map_of (rev (List.map_filter parse_env_line ls))"
    by (rule load_env_lines_all_ok)
next
  show "\<exists>p q. s = p @ strip_chars cs s @ q \<and> set p \<subseteq> set cs \<and> set q \<subseteq> set cs"
    by (rule strip_chars_decomp)
next
  assume "strip_chars cs s \<noteq> []"
  then show "hd (strip_chars cs s) \<notin> set cs" "last (strip_chars cs s) \<notin> set cs"
    using strip_chars_ends by blast+
qed

lemmas parse_defs = parse_env_line_def strip_def strip_chars_def whitespace_def split_once_def
  putenv_ok_def

text \<open>
  The line \<^verbatim>\<open>  KEY = "va=l"  \<close> followed by a comment line, read into an environment that
  already has \<^verbatim>\<open>KEY\<close>.
\<close>

theorem C2_env_file_lines_witness:
  "parse_env_line ''  KEY = \"va=l\"  '' \<noteq> None
   \<and> strip ''  KEY = \"va=l\"  '' = ''KEY '' @ CHR ''='' # '' \"va=l\"''
   \<and> CHR ''='' \<notin> set ''KEY ''
   \<and> load_env_lines [''KEY'' \<mapsto> ''old''] [''  KEY = \"va=l\"  '', ''# KEY=no''] =
        [''KEY'' \<mapsto> ''va=l'']"
  using C2_env_file_lines [of "''  KEY = \"va=l\"  ''" "[''KEY'' \<mapsto> ''old'']" "[''# KEY=no'']"
      "''KEY ''" "'' \"va=l\"''"]
  by (simp add: parse_defs)

text \<open>
  Claim C2 as the specification words it fails: the line \<^verbatim>\<open>K=""a""\<close> stores \<^verbatim>\<open>a\<close>, where
  removing one layer of matching quotes leaves \<^verbatim>\<open>"a"\<close>.
\<close>

theorem C2_quotes_counterexample:
  "load_env_lines Map.empty [''K=\"\"a\"\"''] ''K'' = Some ''a''
   \<and> spec_unquote ''\"\"a\"\"'' = ''\"a\"''
   \<and> load_env_lines Map.empty [''K=\"\"a\"\"''] ''K'' \<noteq> Some (spec_unquote ''\"\"a\"\"'')"
  by (simp add: parse_defs spec_unquote_def)

section \<open>The order of the candidate files\<close>

lemma load_first_skip:
  "\<not> list_ex (usable fs) pre \<Longrightarrow>
     load_first loader fs env (pre @ rest) = load_first loader fs env rest"
proof (induction pre)
  case Nil
  then show ?case by simp
next
  case (Cons c pre)
  then show ?case by (cases c) (auto simp: usable_def)
qed

lemma load_first_none:
  "\<not> list_ex (usable fs) cands \<Longrightarrow> load_first loader fs env cands = env"
  using load_first_skip[of fs cands loader env "[]"] by simp

lemma load_first_hit:
  "usable fs (Some p) \<Longrightarrow> load_first loader fs env (Some p # post) = loader env p"
  by (simp add: usable_def)

text \<open>
  Claim C6. The candidates for the environment file are the explicit path, \<^verbatim>\<open>.env\<close>,
  \<^verbatim>\<open>/etc/dbmigration/.env\<close>, the expansion of \<^verbatim>\<open>~/.dbmigration/.env\<close> and
  \<^verbatim>\<open>/opt/dbmigration/.env\<close>, in this order. When a candidate is given and exists and no
  candidate before it is, the environment after this stage is what parsing that one
  file gives: no later candidate is read. When no candidate is given and exists, the
  environment is unchanged. \<^verbatim>\<open>load\<close> runs this stage first and the credential-file stage
  on its result.
\<close>

theorem C6_first_existing_env_file:
  "env_paths rt env env_file =
     [env_file, Some ''.env'', Some ''/etc/dbmigration/.env'',
      Some (expanduser rt env ''/.dbmigration/.env''), Some ''/opt/dbmigration/.env'']
   \<and> (env_paths rt env env_file = pre @ Some p # post \<and> \<not> list_ex (usable fs) pre
        \<and> usable fs (Some p) \<longrightarrow>
        load_first (load_env_file fs) fs env (env_paths rt env env_file) = load_env_file fs env p)
   \<and> (\<not> list_ex (usable fs) (env_paths rt env env_file) \<longrightarrow>
        load_first (load_env_file fs) fs env (env_paths rt env env_file) = env)
   \<and> fst (load rt fs env_file config_file (env, self)) =
        load_first (load_firebase_config rt fs) fs
          (load_first (load_env_file fs) fs env (env_paths rt env env_file))
          (firebase_paths rt (load_first (load_env_file fs) fs env (env_paths rt env env_file))
             config_file)"
proof (intro conjI impI)
  show "env_paths rt env env_file =
     [env_file, Some ''.env'', Some ''/etc/dbmigration/.env'',
      Some (expanduser rt env ''/.dbmigration/.env''), Some ''/opt/dbmigration/.env'']"
    by (simp add: env_paths_def)
next
  assume a: "env_paths rt env env_file = pre @ Some p # post \<and> \<not> list_ex (usable fs) pre
        \<and> usable fs (Some p)"
  then have pre: "\<not> list_ex (usable fs) pre" and hit: "usable fs (Some p)" by simp_all
  have "load_first (load_env_file fs) fs env (pre @ Some p # post) =
        load_first (load_env_file fs) fs env (Some p # post)"
    using pre by (rule load_first_skip)
  also have "\<dots> = load_env_file fs env p"
    using hit by (rule load_first_hit)
  finally have "load_first (load_env_file fs) fs env (pre @ Some p # post) = load_env_file fs env p" .
  with a show "load_first (load_env_file fs) fs env (env_paths rt env env_file) = load_env_file fs env p"
    by simp
next
  assume "\<not> list_ex (usable fs) (env_paths rt env env_file)"
  then show "load_first (load_env_file fs) fs env (env_paths rt env env_file) = env"
    by (rule load_first_none)
next
  show "fst (load rt fs env_file config_file (env, self)) =
        load_first (load_firebase_config rt fs) fs
          (load_first (load_env_file fs) fs env (env_paths rt env env_file))
          (firebase_paths rt (load_first (load_env_file fs) fs env (env_paths rt env env_file))
             config_file)"
    by (simp add: load_def Let_def split: prod.splits option.splits)
qed

text \<open>
  An explicit path that does not exist, \<^verbatim>\<open>.env\<close> defining \<^verbatim>\<open>A\<close> and a later candidate
  defining \<^verbatim>\<open>B\<close>: only \<^verbatim>\<open>A\<close> is set.
\<close>

theorem C6_first_existing_env_file_witness:
  "env_paths sample_runtime Map.empty (Some ''missing.env'') =
     [Some ''missing.env''] @ Some ''.env'' #
       [Some ''/etc/dbmigration/.env'', Some ''/root/.dbmigration/.env'', Some ''/opt/dbmigration/.env'']
   \<and> \<not> list_ex (usable two_env_files) [Some ''missing.env'']
   \<and> usable two_env_files (Some ''.env'')
   \<and> load_first (load_env_file two_env_files) two_env_files Map.empty
        (env_paths sample_runtime Map.empty (Some ''missing.env'')) = [''A'' \<mapsto> ''1'']"
  using C6_first_existing_env_file [of sample_runtime Map.empty "Some ''missing.env''"
      "[Some ''missing.env'']" "''.env''"
      "[Some ''/etc/dbmigration/.env'', Some ''/root/.dbmigration/.env'', Some ''/opt/dbmigration/.env'']"
      two_env_files]
  by (simp add: env_paths_def expanduser_def sample_runtime_def usable_def path_exists_def
      two_env_files_def load_env_file_def file_lines_def parse_defs)

section \<open>The accessors\<close>

text \<open>
  Claim C7. Once the configuration is resolved (the instance was loaded, or the lazy
  \<^verbatim>\<open>load\<close> of the accessor returned), a key that is absent makes \<^verbatim>\<open>__getitem__\<close> raise
  \<^verbatim>\<open>KeyError\<close> and makes \<^verbatim>\<open>get\<close> return the default; a key that is present makes both
  return the section.
\<close>

theorem C7_accessors:
  "ensure_loaded rt fs st = (env', self', None) \<longrightarrow>
     (case map_of (config self') key of
        None \<Rightarrow>
          getitem rt fs key st = (env', self', Inl (KeyError key))
          \<and> get rt fs key dflt st = (env', self', Inr dflt)
      | Some v \<Rightarrow>
          getitem rt fs key st = (env', self', Inr v)
          \<and> get rt fs key dflt st = (env', self', Inr v))"
  by (simp add: getitem_def get_def split: option.splits)

text \<open>A loaded instance with the \<^verbatim>\<open>aws\<close> section only, asked for \<^verbatim>\<open>firebase\<close>.\<close>

theorem C7_accessors_witness:
  "ensure_loaded sample_runtime Map.empty
      (Map.empty, \<lparr>config = [(''aws'', PDict [(''region'', PStr ''us-east-1'')])], loaded = True\<rparr>) =
      (Map.empty, \<lparr>config = [(''aws'', PDict [(''region'', PStr ''us-east-1'')])], loaded = True\<rparr>, None)
   \<and> snd (snd (getitem sample_runtime Map.empty ''firebase''
      (Map.empty, \<lparr>config = [(''aws'', PDict [(''region'', PStr ''us-east-1'')])], loaded = True\<rparr>))) =
      Inl (KeyError ''firebase'')
   \<and> snd (snd (get sample_runtime Map.empty ''firebase'' (PDict [])
      (Map.empty, \<lparr>config = [(''aws'', PDict [(''region'', PStr ''us-east-1'')])], loaded = True\<rparr>))) =
      Inr (PDict [])"
  using C7_accessors [of sample_runtime Map.empty
      "(Map.empty, \<lparr>config = [(''aws'', PDict [(''region'', PStr ''us-east-1'')])], loaded = True\<rparr>)"
      Map.empty "\<lparr>config = [(''aws'', PDict [(''region'', PStr ''us-east-1'')])], loaded = True\<rparr>"
      "''firebase''" "PDict []"]
  by (simp add: ensure_loaded_def)

section \<open>Lower case\<close>

text \<open>
  \<^verbatim>\<open>str.lower\<close> maps exactly two characters to a given small ASCII letter: the letter
  and its capital.
\<close>

lemma lower_char_eq_iff:
  assumes "97 \<le> (of_char l :: nat)" "(of_char l :: nat) \<le> 122"
  shows "lower_char c = l \<longleftrightarrow> c = l \<or> (of_char c :: nat) + 32 = of_char l"
proof -
  define n where "n = (of_char c :: nat)"
  define m where "m = (of_char l :: nat)"
  have m: "97 \<le> m" "m \<le> 122" using assms by (simp_all add: m_def)
  have cl: "c = l \<longleftrightarrow> n = m" unfolding n_def m_def by (simp only: of_char_eq_iff)
  show ?thesis
  proof (cases "(65 \<le> n \<and> n \<le> 90) \<or> (192 \<le> n \<and> n \<le> 222 \<and> n \<noteq> 215)")
    case True
    then have lc: "lower_char c = char_of (n + 32)"
      unfolding lower_char_def Let_def n_def by (rule if_P)
    have "char_of (n + 32) = l \<longleftrightarrow> (n + 32) mod 256 = m"
      unfolding m_def by (simp only: char_of_eq_iff take_bit_eq_mod) simp
    moreover from True have "n + 32 < 256" by linarith
    then have "(n + 32) mod 256 = n + 32" by (rule mod_less)
    ultimately have "lower_char c = l \<longleftrightarrow> n + 32 = m" using lc by (simp only:)
    moreover from True m have "n \<noteq> m" by linarith
    ultimately have "lower_char c = l \<longleftrightarrow> c = l \<or> n + 32 = m" using cl by blast
    then show ?thesis unfolding n_def m_def .
  next
    case False
    then have lc: "lower_char c = c"
      unfolding lower_char_def Let_def n_def by (rule if_not_P)
    from False m have "n + 32 \<noteq> m" by linarith
    with lc have "lower_char c = l \<longleftrightarrow> c = l \<or> n + 32 = m" by (simp only:) blast
    then show ?thesis unfolding n_def m_def .
  qed
qed

lemma lower_char_letter:
  assumes l: "(of_char l :: nat) = m" and u: "(of_char u :: nat) = m - 32"
    and m: "97 \<le> m" "m \<le> 122"
  shows "lower_char c = l \<longleftrightarrow> c = l \<or> c = u"
proof -
  have "lower_char c = l \<longleftrightarrow> c = l \<or> (of_char c :: nat) + 32 = m"
    using lower_char_eq_iff[of l c] l m by (simp only:)
  moreover have "(of_char c :: nat) + 32 = m \<longleftrightarrow> (of_char c :: nat) = m - 32"
    using m by linarith
  moreover have "(of_char c :: nat) = m - 32 \<longleftrightarrow> c = u"
    unfolding u[symmetric] by (simp only: of_char_eq_iff)
  ultimately show ?thesis by (simp only:)
qed

lemma lower_t: "lower_char c = CHR ''t'' \<longleftrightarrow> c = CHR ''t'' \<or> c = CHR ''T''"
  by (rule lower_char_letter[of _ 116]) simp_all

lemma lower_r: "lower_char c = CHR ''r'' \<longleftrightarrow> c = CHR ''r'' \<or> c = CHR ''R''"
  by (rule lower_char_letter[of _ 114]) simp_all

lemma lower_u: "lower_char c = CHR ''u'' \<longleftrightarrow> c = CHR ''u'' \<or> c = CHR ''U''"
  by (rule lower_char_letter[of _ 117]) simp_all

lemma lower_e: "lower_char c = CHR ''e'' \<longleftrightarrow> c = CHR ''e'' \<or> c = CHR ''E''"
  by (rule lower_char_letter[of _ 101]) simp_all

lemma true_spellings_eq:
  "true_spellings =
     [''true'', ''truE'', ''trUe'', ''trUE'', ''tRue'', ''tRuE'', ''tRUe'', ''tRUE'',
      ''True'', ''TruE'', ''TrUe'', ''TrUE'', ''TRue'', ''TRuE'', ''TRUe'', ''TRUE'']"
  by (simp add: true_spellings_def)

lemma lower_true_spelling:
  assumes "a = CHR ''t'' \<or> a = CHR ''T''" "b = CHR ''r'' \<or> b = CHR ''R''"
    "c = CHR ''u'' \<or> c = CHR ''U''" "d = CHR ''e'' \<or> d = CHR ''E''"
  shows "[a, b, c, d] \<in> set true_spellings"
  using assms unfolding true_spellings_eq
  by (elim disjE) simp_all

lemma lower_true_iff: "lower v = ''true'' \<longleftrightarrow> v \<in> set true_spellings"
proof
  assume "lower v = ''true''"
  then have "map lower_char v = [CHR ''t'', CHR ''r'', CHR ''u'', CHR ''e'']"
    by (simp add: lower_def)
  then obtain a b c d where v: "v = [a, b, c, d]"
    and l: "lower_char a = CHR ''t''" "lower_char b = CHR ''r''"
    "lower_char c = CHR ''u''" "lower_char d = CHR ''e''"
    by (auto simp only: map_eq_Cons_conv map_is_Nil_conv)
  from l have "a = CHR ''t'' \<or> a = CHR ''T''" "b = CHR ''r'' \<or> b = CHR ''R''"
     "c = CHR ''u'' \<or> c = CHR ''U''" "d = CHR ''e'' \<or> d = CHR ''E''"
    by (simp_all only: lower_t lower_r lower_u lower_e)
  then show "v \<in> set true_spellings"
    unfolding v by (rule lower_true_spelling)
next
  have l: "lower_char (CHR ''t'') = CHR ''t''" "lower_char (CHR ''T'') = CHR ''t''"
    "lower_char (CHR ''r'') = CHR ''r''" "lower_char (CHR ''R'') = CHR ''r''"
    "lower_char (CHR ''u'') = CHR ''u''" "lower_char (CHR ''U'') = CHR ''u''"
    "lower_char (CHR ''e'') = CHR ''e''" "lower_char (CHR ''E'') = CHR ''e''"
    by (simp_all only: lower_t lower_r lower_u lower_e) simp_all
  assume "v \<in> set true_spellings"
  then have "v = ''true'' \<or> v = ''truE'' \<or> v = ''trUe'' \<or> v = ''trUE'' \<or> v = ''tRue''
     \<or> v = ''tRuE'' \<or> v = ''tRUe'' \<or> v = ''tRUE'' \<or> v = ''True'' \<or> v = ''TruE''
     \<or> v = ''TrUe'' \<or> v = ''TrUE'' \<or> v = ''TRue'' \<or> v = ''TRuE'' \<or> v = ''TRUe'' \<or> v = ''TRUE''"
    unfolding true_spellings_eq by (simp only: set_simps insert_iff empty_iff simp_thms)
  then show "lower v = ''true''"
    by (elim disjE) (simp_all only: lower_def list.map l)
qed

section \<open>The sections \<^verbatim>\<open>_build_config\<close> stores\<close>

lemma load_build:
  "load rt fs env_file config_file (env, self) = (env', self', err) \<Longrightarrow>
     build_config rt env' (config self) = (config self', err)"
  by (auto simp: load_def Let_def split: prod.splits option.splits)

lemma set_if_env_keys:
  "fst ` set (set_if_env env var key d) \<subseteq> insert key (fst ` set d)"
  by (auto simp: set_if_env_def dom_update split: option.splits)

lemma build_config_keys:
  "fst ` set (fst (build_config rt env c0)) \<subseteq>
     fst ` set c0 \<union> {''ANTHROPIC_API_KEY'', ''firebase'', ''admin'', ''aws'', ''app''}"
proof -
  have k: "fst ` set (set_if_env env ''ANTHROPIC_API_KEY'' ''ANTHROPIC_API_KEY'' c0) \<subseteq>
      insert ''ANTHROPIC_API_KEY'' (fst ` set c0)"
    by (rule set_if_env_keys)
  show ?thesis
    unfolding build_config_def Let_def using k
    by (auto simp: dom_update split: sum.splits)
qed

lemma build_config_app:
  "build_config rt env c0 = (c', None) \<Longrightarrow>
     \<exists>app. app_config env = Inr app \<and> map_of c' ''app'' = Some (PDict app)"
  unfolding build_config_def Let_def
  by (auto simp: update_conv' split: sum.splits)

lemma build_config_aws:
  "build_config rt env c0 = (c', None) \<Longrightarrow> map_of c' ''aws'' = Some (PDict (aws_config env))"
  unfolding build_config_def Let_def
  by (auto simp: update_conv' split: sum.splits)


lemma fill_firebase_unset:
  "\<forall>(key, var) \<in> set m. env var = None \<or> env var = Some [] \<Longrightarrow>
     fill_firebase env fb m = Inr fb"
  by (induction m) (auto split: option.splits)

lemma set_if_env_lookup:
  "map_of (set_if_env env var key d) key' =
     (if key' = key \<and> env var \<noteq> None \<and> env var \<noteq> Some []
      then map_option PStr (env var) else map_of d key')"
  by (auto simp: set_if_env_def update_conv' split: option.splits)

lemma build_config_anthropic:
  "map_of (fst (build_config rt env c0)) ''ANTHROPIC_API_KEY'' =
     (if env ''ANTHROPIC_API_KEY'' \<noteq> None \<and> env ''ANTHROPIC_API_KEY'' \<noteq> Some []
      then map_option PStr (env ''ANTHROPIC_API_KEY'') else map_of c0 ''ANTHROPIC_API_KEY'')"
  unfolding build_config_def Let_def
  by (simp add: update_conv' set_if_env_lookup split: sum.splits)

lemma admin_config_unset:
  "\<forall>var \<in> set [''ADMIN_EMAIL'', ''ADMIN_PASSWORD'', ''ADMIN_KEY'']. env var = None \<or> env var = Some [] \<Longrightarrow>
     admin_config env = []"
  by (auto simp: admin_config_def set_if_env_def)

lemma build_config_admin:
  "map_of (fst (build_config rt env c0)) ''admin'' \<noteq> map_of c0 ''admin'' \<Longrightarrow>
     admin_config env \<noteq> []"
  unfolding build_config_def Let_def
  by (auto simp: update_conv' set_if_env_lookup split: sum.splits if_splits)

lemma build_config_firebase_changed:
  assumes "map_of (fst (build_config rt env c0)) ''firebase'' \<noteq> map_of c0 ''firebase''"
  shows "\<exists>var \<in> set (''FIREBASE_CONFIG_JSON'' # map snd firebase_env_mapping).
           env var \<noteq> None \<and> env var \<noteq> Some []"
proof (rule ccontr)
  assume "\<not> ?thesis"
  then have j: "env ''FIREBASE_CONFIG_JSON'' = None \<or> env ''FIREBASE_CONFIG_JSON'' = Some []"
    and m: "\<forall>(key, var) \<in> set firebase_env_mapping. env var = None \<or> env var = Some []"
    by auto
  from j have fb0: "firebase_from_json rt env = PDict []"
    by (auto simp: firebase_from_json_def)
  from m have "fill_firebase env (PDict []) firebase_env_mapping = Inr (PDict [])"
    by (rule fill_firebase_unset)
  with fb0 have "map_of (fst (build_config rt env c0)) ''firebase'' = map_of c0 ''firebase''"
    unfolding build_config_def Let_def
    by (simp add: update_conv' set_if_env_lookup split: sum.splits)
  with assms show False by simp
qed

text \<open>
  Claim C10. After \<^verbatim>\<open>load\<close> on a fresh instance, whether it returned or raised, every
  top-level key is one of \<^verbatim>\<open>ANTHROPIC_API_KEY\<close>, \<^verbatim>\<open>firebase\<close>, \<^verbatim>\<open>admin\<close>, \<^verbatim>\<open>aws\<close>, \<^verbatim>\<open>app\<close>.
\<close>

theorem C10_top_level_keys:
  "load rt fs env_file config_file (env, EC2Secrets_init) = (env', self', err) \<longrightarrow>
     fst ` set (config self') \<subseteq> {''ANTHROPIC_API_KEY'', ''firebase'', ''admin'', ''aws'', ''app''}"
proof
  assume "load rt fs env_file config_file (env, EC2Secrets_init) = (env', self', err)"
  then have "build_config rt env' (config EC2Secrets_init) = (config self', err)"
    by (rule load_build)
  then have "fst (build_config rt env' []) = config self'"
    by (simp add: EC2Secrets_init_def)
  then show "fst ` set (config self') \<subseteq> {''ANTHROPIC_API_KEY'', ''firebase'', ''admin'', ''aws'', ''app''}"
    using build_config_keys[of rt env' "[]"] by simp
qed

text \<open>
  Claim C8. When \<^verbatim>\<open>load\<close> returns, the \<^verbatim>\<open>debug\<close> field of the \<^verbatim>\<open>app\<close> section is the
  boolean \<^verbatim>\<open>True\<close> exactly when \<^verbatim>\<open>APP_DEBUG\<close> is set, in the environment the files have
  been loaded into, to one of the sixteen spellings of \<^verbatim>\<open>true\<close>; it is \<^verbatim>\<open>False\<close> for any
  other value and when the variable is unset.
\<close>

theorem C8_debug_flag:
  "load rt fs env_file config_file (env, self) = (env', self', None) \<longrightarrow>
     section_field (config self') ''app'' ''debug'' =
       Some (PBool (case env' ''APP_DEBUG'' of None \<Rightarrow> False | Some v \<Rightarrow> v \<in> set true_spellings))"
proof
  assume "load rt fs env_file config_file (env, self) = (env', self', None)"
  then have "build_config rt env' (config self) = (config self', None)"
    by (rule load_build)
  then obtain app where app: "app_config env' = Inr app"
    and sec: "map_of (config self') ''app'' = Some (PDict app)"
    using build_config_app by blast
  have f: "''false'' \<notin> set true_spellings" by (simp add: true_spellings_eq)
  from app have "map_of app ''debug'' =
      Some (PBool (lower (getenv_default env' ''APP_DEBUG'' ''false'') = ''true''))"
    by (auto simp: app_config_def split: option.splits)
  then have "map_of app ''debug'' =
      Some (PBool (case env' ''APP_DEBUG'' of None \<Rightarrow> False | Some v \<Rightarrow> v \<in> set true_spellings))"
    using f by (simp add: lower_true_iff getenv_default_def split: option.splits)
  with sec show "section_field (config self') ''app'' ''debug'' =
       Some (PBool (case env' ''APP_DEBUG'' of None \<Rightarrow> False | Some v \<Rightarrow> v \<in> set true_spellings))"
    by (simp add: section_field_def)
qed

text \<open>
  Claim C5. When \<^verbatim>\<open>load\<close> on a fresh instance returns, with \<open>env'\<close> the environment the
  files have been loaded into: the \<^verbatim>\<open>aws\<close> section is present and its \<^verbatim>\<open>region\<close> is
  \<^verbatim>\<open>AWS_DEFAULT_REGION\<close>, or \<^verbatim>\<open>us-east-1\<close> when that is unset; the \<^verbatim>\<open>app\<close> section is
  present with \<^verbatim>\<open>mode\<close>, \<^verbatim>\<open>port\<close>, \<^verbatim>\<open>host\<close> and \<^verbatim>\<open>debug\<close>, each from its variable or
  its default (\<^verbatim>\<open>production\<close>, the integer 8501, \<^verbatim>\<open>0.0.0.0\<close>, \<^verbatim>\<open>False\<close>); and each of
  \<^verbatim>\<open>ANTHROPIC_API_KEY\<close>, \<^verbatim>\<open>firebase\<close> and \<^verbatim>\<open>admin\<close> is present only if one of its source
  variables is set.
\<close>

theorem C5_sections_present:
  "load rt fs env_file config_file (env, EC2Secrets_init) = (env', self', None) \<longrightarrow>
     section_field (config self') ''aws'' ''region'' =
       Some (PStr (case env' ''AWS_DEFAULT_REGION'' of None \<Rightarrow> ''us-east-1'' | Some r \<Rightarrow> r))
     \<and> section_field (config self') ''app'' ''mode'' =
       Some (PStr (case env' ''APP_MODE'' of None \<Rightarrow> ''production'' | Some m \<Rightarrow> m))
     \<and> section_field (config self') ''app'' ''port'' =
       map_option PInt (py_int (case env' ''APP_PORT'' of None \<Rightarrow> ''8501'' | Some p \<Rightarrow> p))
     \<and> section_field (config self') ''app'' ''port'' \<noteq> None
     \<and> py_int ''8501'' = Some 8501
     \<and> section_field (config self') ''app'' ''host'' =
       Some (PStr (case env' ''APP_HOST'' of None \<Rightarrow> ''0.0.0.0'' | Some h \<Rightarrow> h))
     \<and> section_field (config self') ''app'' ''debug'' =
       Some (PBool (lower (case env' ''APP_DEBUG'' of None \<Rightarrow> ''false'' | Some d \<Rightarrow> d) = ''true''))
     \<and> (map_of (config self') ''ANTHROPIC_API_KEY'' \<noteq> None \<longrightarrow>
          env' ''ANTHROPIC_API_KEY'' \<noteq> None)
     \<and> (map_of (config self') ''firebase'' \<noteq> None \<longrightarrow>
          (\<exists>var \<in> set (''FIREBASE_CONFIG_JSON'' # map snd firebase_env_mapping). env' var \<noteq> None))
     \<and> (map_of (config self') ''admin'' \<noteq> None \<longrightarrow>
          (\<exists>var \<in> set [''ADMIN_EMAIL'', ''ADMIN_PASSWORD'', ''ADMIN_KEY'']. env' var \<noteq> None))"
proof
  assume "load rt fs env_file config_file (env, EC2Secrets_init) = (env', self', None)"
  then have "build_config rt env' (config EC2Secrets_init) = (config self', None)"
    by (rule load_build)
  then have b: "build_config rt env' [] = (config self', None)"
    by (simp add: EC2Secrets_init_def)
  then have c: "config self' = fst (build_config rt env' [])" by simp
  from b obtain app where app: "app_config env' = Inr app"
    and sec: "map_of (config self') ''app'' = Some (PDict app)"
    using build_config_app by blast
  from b have aws: "map_of (config self') ''aws'' = Some (PDict (aws_config env'))"
    by (rule build_config_aws)
  have 1: "section_field (config self') ''aws'' ''region'' =
       Some (PStr (case env' ''AWS_DEFAULT_REGION'' of None \<Rightarrow> ''us-east-1'' | Some r \<Rightarrow> r))"
    using aws by (simp add: section_field_def aws_config_def getenv_default_def Let_def
        update_conv' split: option.splits)
  from app obtain port where port: "py_int (getenv_default env' ''APP_PORT'' ''8501'') = Some port"
    and appv: "app = [(''mode'', PStr (getenv_default env' ''APP_MODE'' ''production'')),
               (''port'', PInt port),
               (''host'', PStr (getenv_default env' ''APP_HOST'' ''0.0.0.0'')),
               (''debug'', PBool (lower (getenv_default env' ''APP_DEBUG'' ''false'') = ''true''))]"
    by (auto simp: app_config_def split: option.splits)
  have gd: "\<And>name dflt. getenv_default env' name dflt = (case env' name of None \<Rightarrow> dflt | Some v \<Rightarrow> v)"
    by (simp add: getenv_default_def)
  have 2: "section_field (config self') ''app'' ''mode'' =
       Some (PStr (case env' ''APP_MODE'' of None \<Rightarrow> ''production'' | Some m \<Rightarrow> m))"
    using sec by (simp add: section_field_def appv gd)
  have 3: "section_field (config self') ''app'' ''port'' =
       map_option PInt (py_int (case env' ''APP_PORT'' of None \<Rightarrow> ''8501'' | Some p \<Rightarrow> p))"
    using sec port by (simp add: section_field_def appv gd)
  have 9: "section_field (config self') ''app'' ''port'' \<noteq> None"
    using sec by (simp add: section_field_def appv)
  have 10: "py_int ''8501'' = Some 8501"
    by (simp add: py_int_def int_space_def is_digit_def digit_val_def)
  have 4: "section_field (config self') ''app'' ''host'' =
       Some (PStr (case env' ''APP_HOST'' of None \<Rightarrow> ''0.0.0.0'' | Some h \<Rightarrow> h))"
    using sec by (simp add: section_field_def appv gd)
  have 5: "section_field (config self') ''app'' ''debug'' =
       Some (PBool (lower (case env' ''APP_DEBUG'' of None \<Rightarrow> ''false'' | Some d \<Rightarrow> d) = ''true''))"
    using sec by (simp add: section_field_def appv gd)
  have 6: "map_of (config self') ''ANTHROPIC_API_KEY'' \<noteq> None \<longrightarrow>
          env' ''ANTHROPIC_API_KEY'' \<noteq> None"
    unfolding c build_config_anthropic by simp
  have 7: "map_of (config self') ''firebase'' \<noteq> None \<longrightarrow>
          (\<exists>var \<in> set (''FIREBASE_CONFIG_JSON'' # map snd firebase_env_mapping). env' var \<noteq> None)"
  proof
    assume "map_of (config self') ''firebase'' \<noteq> None"
    then have "map_of (fst (build_config rt env' [])) ''firebase'' \<noteq> map_of [] ''firebase''"
      by (simp add: c)
    then have "\<exists>var \<in> set (''FIREBASE_CONFIG_JSON'' # map snd firebase_env_mapping).
           env' var \<noteq> None \<and> env' var \<noteq> Some []"
      by (rule build_config_firebase_changed)
    then show "\<exists>var \<in> set (''FIREBASE_CONFIG_JSON'' # map snd firebase_env_mapping). env' var \<noteq> None"
      by blast
  qed
  have 8: "map_of (config self') ''admin'' \<noteq> None \<longrightarrow>
          (\<exists>var \<in> set [''ADMIN_EMAIL'', ''ADMIN_PASSWORD'', ''ADMIN_KEY'']. env' var \<noteq> None)"
  proof
    assume "map_of (config self') ''admin'' \<noteq> None"
    then have "map_of (fst (build_config rt env' [])) ''admin'' \<noteq> map_of [] ''admin''"
      by (simp add: c)
    then have "admin_config env' \<noteq> []" by (rule build_config_admin)
    then have "\<not> (\<forall>var \<in> set [''ADMIN_EMAIL'', ''ADMIN_PASSWORD'', ''ADMIN_KEY''].
        env' var = None \<or> env' var = Some [])"
      using admin_config_unset by blast
    then show "\<exists>var \<in> set [''ADMIN_EMAIL'', ''ADMIN_PASSWORD'', ''ADMIN_KEY'']. env' var \<noteq> None"
      by blast
  qed
  from 1 2 3 9 10 4 5 6 7 8 show "section_field (config self') ''aws'' ''region'' =
       Some (PStr (case env' ''AWS_DEFAULT_REGION'' of None \<Rightarrow> ''us-east-1'' | Some r \<Rightarrow> r))
     \<and> section_field (config self') ''app'' ''mode'' =
       Some (PStr (case env' ''APP_MODE'' of None \<Rightarrow> ''production'' | Some m \<Rightarrow> m))
     \<and> section_field (config self') ''app'' ''port'' =
       map_option PInt (py_int (case env' ''APP_PORT'' of None \<Rightarrow> ''8501'' | Some p \<Rightarrow> p))
     \<and> section_field (config self') ''app'' ''port'' \<noteq> None
     \<and> py_int ''8501'' = Some 8501
     \<and> section_field (config self') ''app'' ''host'' =
       Some (PStr (case env' ''APP_HOST'' of None \<Rightarrow> ''0.0.0.0'' | Some h \<Rightarrow> h))
     \<and> section_field (config self') ''app'' ''debug'' =
       Some (PBool (lower (case env' ''APP_DEBUG'' of None \<Rightarrow> ''false'' | Some d \<Rightarrow> d) = ''true''))
     \<and> (map_of (config self') ''ANTHROPIC_API_KEY'' \<noteq> None \<longrightarrow>
          env' ''ANTHROPIC_API_KEY'' \<noteq> None)
     \<and> (map_of (config self') ''firebase'' \<noteq> None \<longrightarrow>
          (\<exists>var \<in> set (''FIREBASE_CONFIG_JSON'' # map snd firebase_env_mapping). env' var \<noteq> None))
     \<and> (map_of (config self') ''admin'' \<noteq> None \<longrightarrow>
          (\<exists>var \<in> set [''ADMIN_EMAIL'', ''ADMIN_PASSWORD'', ''ADMIN_KEY'']. env' var \<noteq> None))"
    by (intro conjI)
qed

section \<open>The sections on concrete environments\<close>

text \<open>Every optional section present: the five keys, and no other.\<close>

theorem C10_top_level_keys_witness:
  "load sample_runtime Map.empty None None (full_env, EC2Secrets_init) =
     (full_env,
      \<lparr>config =
         [(''ANTHROPIC_API_KEY'', PStr ''sk-1''),
          (''firebase'', PDict [(''project_id'', PStr ''demo'')]),
          (''admin'', PDict [(''email'', PStr ''a@b.c'')]),
          (''aws'', PDict [(''region'', PStr ''us-east-1'')]),
          (''app'', PDict [(''mode'', PStr ''production''), (''port'', PInt 8501),
                           (''host'', PStr ''0.0.0.0''), (''debug'', PBool False)])],
       loaded = True\<rparr>,
      None)
   \<and> fst ` set (config (fst (snd (load sample_runtime Map.empty None None (full_env, EC2Secrets_init)))))
       \<subseteq> {''ANTHROPIC_API_KEY'', ''firebase'', ''admin'', ''aws'', ''app''}"
  using C10_top_level_keys [of sample_runtime Map.empty None None full_env full_env
      "fst (snd (load sample_runtime Map.empty None None (full_env, EC2Secrets_init)))" None]
  by (simp add: eval_defs full_env_def lower_true_iff true_spellings_eq)

text \<open>\<^verbatim>\<open>APP_DEBUG=TRUE\<close> gives \<^verbatim>\<open>True\<close>; \<^verbatim>\<open>APP_DEBUG=yes\<close> gives \<^verbatim>\<open>False\<close>.\<close>

theorem C8_debug_flag_witness:
  "load sample_runtime Map.empty None None ([''APP_DEBUG'' \<mapsto> ''TRUE''], EC2Secrets_init) =
     ([''APP_DEBUG'' \<mapsto> ''TRUE''],
      \<lparr>config =
         [(''aws'', PDict [(''region'', PStr ''us-east-1'')]),
          (''app'', PDict [(''mode'', PStr ''production''), (''port'', PInt 8501),
                           (''host'', PStr ''0.0.0.0''), (''debug'', PBool True)])],
       loaded = True\<rparr>,
      None)
   \<and> ''TRUE'' \<in> set true_spellings
   \<and> load sample_runtime Map.empty None None ([''APP_DEBUG'' \<mapsto> ''yes''], EC2Secrets_init) =
     ([''APP_DEBUG'' \<mapsto> ''yes''],
      \<lparr>config =
         [(''aws'', PDict [(''region'', PStr ''us-east-1'')]),
          (''app'', PDict [(''mode'', PStr ''production''), (''port'', PInt 8501),
                           (''host'', PStr ''0.0.0.0''), (''debug'', PBool False)])],
       loaded = True\<rparr>,
      None)
   \<and> ''yes'' \<notin> set true_spellings"
  using C8_debug_flag [of sample_runtime Map.empty None None "[''APP_DEBUG'' \<mapsto> ''TRUE'']"
      EC2Secrets_init "[''APP_DEBUG'' \<mapsto> ''TRUE'']"
      "fst (snd (load sample_runtime Map.empty None None ([''APP_DEBUG'' \<mapsto> ''TRUE''], EC2Secrets_init)))"]
    C8_debug_flag [of sample_runtime Map.empty None None "[''APP_DEBUG'' \<mapsto> ''yes'']"
      EC2Secrets_init "[''APP_DEBUG'' \<mapsto> ''yes'']"
      "fst (snd (load sample_runtime Map.empty None None ([''APP_DEBUG'' \<mapsto> ''yes''], EC2Secrets_init)))"]
  by (simp add: eval_defs lower_true_iff true_spellings_eq)

text \<open>Nothing set and no file: the two sections with their defaults.\<close>

theorem C5_sections_present_witness:
  "load sample_runtime Map.empty None None (Map.empty, EC2Secrets_init) =
     (Map.empty,
      \<lparr>config =
         [(''aws'', PDict [(''region'', PStr ''us-east-1'')]),
          (''app'', PDict [(''mode'', PStr ''production''), (''port'', PInt 8501),
                           (''host'', PStr ''0.0.0.0''), (''debug'', PBool False)])],
       loaded = True\<rparr>,
      None)
   \<and> section_field
        (config (fst (snd (load sample_runtime Map.empty None None (Map.empty, EC2Secrets_init)))))
        ''aws'' ''region'' = Some (PStr ''us-east-1'')
   \<and> section_field
        (config (fst (snd (load sample_runtime Map.empty None None (Map.empty, EC2Secrets_init)))))
        ''app'' ''port'' = Some (PInt 8501)"
  using C5_sections_present [of sample_runtime Map.empty None None Map.empty Map.empty
      "fst (snd (load sample_runtime Map.empty None None (Map.empty, EC2Secrets_init)))"]
  by (simp add: eval_defs lower_true_iff true_spellings_eq section_field_def)

section \<open>The \<^verbatim>\<open>firebase\<close> section from individual variables\<close>

lemma update_fresh: "k \<notin> fst ` set al \<Longrightarrow> AList.update k v al = al @ [(k, v)]"
  by (induction al) auto

lemma fill_firebase_fresh:
  "distinct (map fst m) \<Longrightarrow> fst ` set d \<inter> fst ` set m = {} \<Longrightarrow>
     fill_firebase env (PDict d) m =
       Inr (PDict (d @ List.map_filter
         (\<lambda>(key, var). case env var of
                       None \<Rightarrow> None
                     | Some v \<Rightarrow> if v = [] then None else Some (key, PStr v)) m))"
proof (induction m arbitrary: d)
  case Nil
  then show ?case by (simp add: List.map_filter_simps)
next
  case (Cons kv m)
  obtain key var where kv: "kv = (key, var)" by (cases kv)
  from Cons.prems kv have dist: "distinct (map fst m)" and knm: "key \<notin> fst ` set m"
    and knd: "key \<notin> fst ` set d" and dm: "fst ` set d \<inter> fst ` set m = {}"
    by auto
  show ?case
  proof (cases "env var = None \<or> env var = Some []")
    case True
    then show ?thesis using Cons.IH[OF dist dm] kv
      by (auto simp: List.map_filter_simps)
  next
    case False
    then obtain v where v: "env var = Some v" "v \<noteq> []" by auto
    have "fst ` set (d @ [(key, PStr v)]) \<inter> fst ` set m = {}"
      using dm knm by auto
    from Cons.IH[OF dist this] v kv knd show ?thesis
      by (simp add: List.map_filter_simps update_fresh)
  qed
qed

lemma fill_firebase_table:
  "fill_firebase env (PDict []) firebase_env_mapping = Inr (PDict (individual_fields env))"
proof -
  have "distinct (map fst firebase_env_mapping)" by (simp add: firebase_env_mapping_def)
  then show ?thesis
    unfolding individual_fields_def
    using fill_firebase_fresh[of firebase_env_mapping "[]" env] by simp
qed

lemma build_config_firebase_individual:
  assumes "firebase_from_json rt env = PDict []"
  shows "map_of (fst (build_config rt env c0)) ''firebase'' =
     (if individual_fields env = [] then map_of c0 ''firebase''
      else Some (PDict (individual_fields env)))"
  unfolding build_config_def Let_def
  by (simp add: assms fill_firebase_table update_conv' set_if_env_lookup split: sum.splits)

text \<open>
  Claim C4, with the number the code has. When \<^verbatim>\<open>FIREBASE_CONFIG_JSON\<close> is absent or does
  not decode, the \<^verbatim>\<open>firebase\<close> section of a fresh instance is built from the eleven
  variables of the table: it has exactly the fields whose variable is set to a non-empty
  text, and it is omitted when there is none.
\<close>

theorem C4_firebase_from_individual_variables:
  "load rt fs env_file config_file (env, EC2Secrets_init) = (env', self', err)
   \<and> (case env' ''FIREBASE_CONFIG_JSON'' of None \<Rightarrow> True | Some doc \<Rightarrow> json_loads rt doc = None)
   \<longrightarrow>
     map_of (config self') ''firebase'' =
       (if individual_fields env' = [] then None else Some (PDict (individual_fields env')))
     \<and> length firebase_env_mapping = 11
     \<and> distinct (map snd firebase_env_mapping)"
proof
  assume a: "load rt fs env_file config_file (env, EC2Secrets_init) = (env', self', err)
   \<and> (case env' ''FIREBASE_CONFIG_JSON'' of None \<Rightarrow> True | Some doc \<Rightarrow> json_loads rt doc = None)"
  then have "build_config rt env' (config EC2Secrets_init) = (config self', err)"
    using load_build by blast
  then have c: "config self' = fst (build_config rt env' [])"
    by (simp add: EC2Secrets_init_def)
  from a have "firebase_from_json rt env' = PDict []"
    by (auto simp: firebase_from_json_def split: option.splits)
  then have "map_of (config self') ''firebase'' =
       (if individual_fields env' = [] then None else Some (PDict (individual_fields env')))"
    unfolding c by (simp add: build_config_firebase_individual)
  moreover have "length firebase_env_mapping = 11" "distinct (map snd firebase_env_mapping)"
    by (simp_all add: firebase_env_mapping_def)
  ultimately show "map_of (config self') ''firebase'' =
       (if individual_fields env' = [] then None else Some (PDict (individual_fields env')))
     \<and> length firebase_env_mapping = 11
     \<and> distinct (map snd firebase_env_mapping)"
    by simp
qed

text \<open>
  Only \<^verbatim>\<open>FIREBASE_PROJECT_ID\<close> set: one field, \<^verbatim>\<open>project_id\<close>. Nothing set: no section.
\<close>

theorem C4_firebase_from_individual_variables_witness:
  "load sample_runtime Map.empty None None ([''FIREBASE_PROJECT_ID'' \<mapsto> ''demo''], EC2Secrets_init) =
     ([''FIREBASE_PROJECT_ID'' \<mapsto> ''demo''],
      \<lparr>config =
         [(''firebase'', PDict [(''project_id'', PStr ''demo'')]),
          (''aws'', PDict [(''region'', PStr ''us-east-1'')]),
          (''app'', PDict [(''mode'', PStr ''production''), (''port'', PInt 8501),
                           (''host'', PStr ''0.0.0.0''), (''debug'', PBool False)])],
       loaded = True\<rparr>,
      None)
   \<and> individual_fields [''FIREBASE_PROJECT_ID'' \<mapsto> ''demo''] = [(''project_id'', PStr ''demo'')]
   \<and> map_of (config (fst (snd (load sample_runtime Map.empty None None (Map.empty, EC2Secrets_init)))))
        ''firebase'' = None"
  using C4_firebase_from_individual_variables [of sample_runtime Map.empty None None
      "[''FIREBASE_PROJECT_ID'' \<mapsto> ''demo'']" "[''FIREBASE_PROJECT_ID'' \<mapsto> ''demo'']"
      "fst (snd (load sample_runtime Map.empty None None
         ([''FIREBASE_PROJECT_ID'' \<mapsto> ''demo''], EC2Secrets_init)))" None]
    C4_firebase_from_individual_variables [of sample_runtime Map.empty None None
      Map.empty Map.empty
      "fst (snd (load sample_runtime Map.empty None None (Map.empty, EC2Secrets_init)))" None]
  by (simp add: eval_defs lower_true_iff true_spellings_eq individual_fields_def
      List.map_filter_simps)

text \<open>
  Claim C4 as the specification words it says ten variables. With all the variables of
  the table set, the section has eleven fields.
\<close>

theorem C4_eleven_variables_counterexample:
  "map_option py_len
     (map_of (config (fst (snd (load sample_runtime Map.empty None None
        (all_firebase_env, EC2Secrets_init))))) ''firebase'') = Some (Some 11)"
  by (simp add: eval_defs all_firebase_env_def lower_true_iff true_spellings_eq)

section \<open>The \<^verbatim>\<open>firebase\<close> section from the JSON document\<close>

text \<open>
  \<^verbatim>\<open>_build_config\<close> reads the environment through a fixed set of names: two
  environments that agree on what each part reads give the same result.
\<close>

lemma admin_config_cong:
  assumes "a ''ADMIN_EMAIL'' = b ''ADMIN_EMAIL''" "a ''ADMIN_PASSWORD'' = b ''ADMIN_PASSWORD''"
    "a ''ADMIN_KEY'' = b ''ADMIN_KEY''"
  shows "admin_config a = admin_config b"
  unfolding admin_config_def set_if_env_def by (simp only: assms)

lemma aws_config_cong:
  assumes "a ''AWS_DEFAULT_REGION'' = b ''AWS_DEFAULT_REGION''"
    "a ''AWS_ACCESS_KEY_ID'' = b ''AWS_ACCESS_KEY_ID''"
    "a ''AWS_SECRET_ACCESS_KEY'' = b ''AWS_SECRET_ACCESS_KEY''"
  shows "aws_config a = aws_config b"
  unfolding aws_config_def getenv_default_def by (simp only: assms)

lemma app_config_cong:
  assumes "a ''APP_MODE'' = b ''APP_MODE''" "a ''APP_PORT'' = b ''APP_PORT''"
    "a ''APP_HOST'' = b ''APP_HOST''" "a ''APP_DEBUG'' = b ''APP_DEBUG''"
  shows "app_config a = app_config b"
  unfolding app_config_def getenv_default_def by (simp only: assms)

lemma build_config_json_wins:
  assumes fb: "firebase_from_json rt env = v" "truthy v"
  shows "map_of (fst (build_config rt env c0)) ''firebase'' = Some v"
  unfolding build_config_def Let_def
  by (simp add: fb update_conv' split: sum.splits)

lemma build_config_cong:
  assumes 1: "set_if_env a ''ANTHROPIC_API_KEY'' ''ANTHROPIC_API_KEY'' c0 =
              set_if_env b ''ANTHROPIC_API_KEY'' ''ANTHROPIC_API_KEY'' c0"
    and 2: "firebase_from_json rt a = firebase_from_json rt b"
    and 3: "\<not> truthy (firebase_from_json rt b) \<Longrightarrow>
              fill_firebase a (firebase_from_json rt b) firebase_env_mapping =
              fill_firebase b (firebase_from_json rt b) firebase_env_mapping"
    and 4: "admin_config a = admin_config b"
    and 5: "aws_config a = aws_config b"
    and 6: "app_config a = app_config b"
  shows "build_config rt a c0 = build_config rt b c0"
proof (cases "truthy (firebase_from_json rt b)")
  case True
  show ?thesis
    unfolding build_config_def Let_def 1 2 4 5 6
    by (simp only: True if_False not_True_eq_False)
next
  case False
  show ?thesis
    unfolding build_config_def Let_def 1 2 4 5 6
    by (simp only: False if_True not_False_eq_True 3[OF False])
qed

lemma not_firebase_var:
  "''ANTHROPIC_API_KEY'' \<notin> set (map snd firebase_env_mapping)"
  "''FIREBASE_CONFIG_JSON'' \<notin> set (map snd firebase_env_mapping)"
  "''ADMIN_EMAIL'' \<notin> set (map snd firebase_env_mapping)"
  "''ADMIN_PASSWORD'' \<notin> set (map snd firebase_env_mapping)"
  "''ADMIN_KEY'' \<notin> set (map snd firebase_env_mapping)"
  "''AWS_DEFAULT_REGION'' \<notin> set (map snd firebase_env_mapping)"
  "''AWS_ACCESS_KEY_ID'' \<notin> set (map snd firebase_env_mapping)"
  "''AWS_SECRET_ACCESS_KEY'' \<notin> set (map snd firebase_env_mapping)"
  "''APP_MODE'' \<notin> set (map snd firebase_env_mapping)"
  "''APP_PORT'' \<notin> set (map snd firebase_env_mapping)"
  "''APP_HOST'' \<notin> set (map snd firebase_env_mapping)"
  "''APP_DEBUG'' \<notin> set (map snd firebase_env_mapping)"
  by (simp_all add: firebase_env_mapping_def)

lemma build_config_ignores_individual:
  assumes fb: "truthy (firebase_from_json rt env)"
    and agree: "\<forall>x. x \<notin> set (map snd firebase_env_mapping) \<longrightarrow> env2 x = env x"
  shows "build_config rt env2 c0 = build_config rt env c0"
proof (rule build_config_cong)
  have ag: "\<And>x. x \<notin> set (map snd firebase_env_mapping) \<Longrightarrow> env2 x = env x"
    using agree by blast
  show "set_if_env env2 ''ANTHROPIC_API_KEY'' ''ANTHROPIC_API_KEY'' c0 =
        set_if_env env ''ANTHROPIC_API_KEY'' ''ANTHROPIC_API_KEY'' c0"
    unfolding set_if_env_def by (simp only: ag[OF not_firebase_var(1)])
  show "firebase_from_json rt env2 = firebase_from_json rt env"
    unfolding firebase_from_json_def by (simp only: ag[OF not_firebase_var(2)])
  show "admin_config env2 = admin_config env"
    by (rule admin_config_cong) (rule ag, rule not_firebase_var)+
  show "aws_config env2 = aws_config env"
    by (rule aws_config_cong) (rule ag, rule not_firebase_var)+
  show "app_config env2 = app_config env"
    by (rule app_config_cong) (rule ag, rule not_firebase_var)+
  assume "\<not> truthy (firebase_from_json rt env)"
  with fb show "fill_firebase env2 (firebase_from_json rt env) firebase_env_mapping =
        fill_firebase env (firebase_from_json rt env) firebase_env_mapping"
    by simp
qed

text \<open>
  Claim C3, as the code has it. When \<^verbatim>\<open>FIREBASE_CONFIG_JSON\<close> decodes to a value that is
  truthy (a non-empty object, for a credential document), the \<^verbatim>\<open>firebase\<close> section is
  that value, and changing, setting or unsetting the individual variables changes
  nothing in what \<^verbatim>\<open>_build_config\<close> does.
\<close>

theorem C3_json_takes_precedence:
  "load rt fs env_file config_file (env, self) = (env', self', err)
   \<and> env' ''FIREBASE_CONFIG_JSON'' = Some doc \<and> doc \<noteq> []
   \<and> json_loads rt doc = Some v \<and> truthy v
   \<longrightarrow>
     map_of (config self') ''firebase'' = Some v
     \<and> (\<forall>env2. (\<forall>x. x \<notin> set (map snd firebase_env_mapping) \<longrightarrow> env2 x = env' x) \<longrightarrow>
          build_config rt env2 (config self) = build_config rt env' (config self))"
proof
  assume a: "load rt fs env_file config_file (env, self) = (env', self', err)
   \<and> env' ''FIREBASE_CONFIG_JSON'' = Some doc \<and> doc \<noteq> []
   \<and> json_loads rt doc = Some v \<and> truthy v"
  then have l: "load rt fs env_file config_file (env, self) = (env', self', err)"
    and j: "env' ''FIREBASE_CONFIG_JSON'' = Some doc" and d: "doc \<noteq> []"
    and dec: "json_loads rt doc = Some v" and t: "truthy v"
    by blast+
  from l have "build_config rt env' (config self) = (config self', err)"
    by (rule load_build)
  then have c: "config self' = fst (build_config rt env' (config self))" by simp
  have fb: "firebase_from_json rt env' = v"
    unfolding firebase_from_json_def by (simp add: j d dec)
  have first: "map_of (config self') ''firebase'' = Some v"
    unfolding c using fb t by (rule build_config_json_wins)
  have t': "truthy (firebase_from_json rt env')" using fb t by simp
  have second: "\<forall>env2. (\<forall>x. x \<notin> set (map snd firebase_env_mapping) \<longrightarrow> env2 x = env' x) \<longrightarrow>
          build_config rt env2 (config self) = build_config rt env' (config self)"
  proof (intro allI impI)
    fix env2
    assume "\<forall>x. x \<notin> set (map snd firebase_env_mapping) \<longrightarrow> env2 x = env' x"
    with t' show "build_config rt env2 (config self) = build_config rt env' (config self)"
      by (rule build_config_ignores_individual)
  qed
  from first second show "map_of (config self') ''firebase'' = Some v
     \<and> (\<forall>env2. (\<forall>x. x \<notin> set (map snd firebase_env_mapping) \<longrightarrow> env2 x = env' x) \<longrightarrow>
          build_config rt env2 (config self) = build_config rt env' (config self))"
    by (rule conjI)
qed

text \<open>
  The document \<^verbatim>\<open>{"project_id": "demo"}\<close> next to \<^verbatim>\<open>FIREBASE_PROJECT_ID=other\<close>: the
  section is the document.
\<close>

theorem C3_json_takes_precedence_witness:
  "load sample_runtime Map.empty None None (json_and_individual_env, EC2Secrets_init) =
     (json_and_individual_env,
      \<lparr>config =
         [(''firebase'', PDict [(''project_id'', PStr ''demo'')]),
          (''aws'', PDict [(''region'', PStr ''us-east-1'')]),
          (''app'', PDict [(''mode'', PStr ''production''), (''port'', PInt 8501),
                           (''host'', PStr ''0.0.0.0''), (''debug'', PBool False)])],
       loaded = True\<rparr>,
      None)
   \<and> json_and_individual_env ''FIREBASE_CONFIG_JSON'' = Some ''{\"project_id\": \"demo\"}''
   \<and> json_loads sample_runtime ''{\"project_id\": \"demo\"}'' =
        Some (PDict [(''project_id'', PStr ''demo'')])
   \<and> truthy (PDict [(''project_id'', PStr ''demo'')])
   \<and> json_and_individual_env ''FIREBASE_PROJECT_ID'' = Some ''other''"
  using C3_json_takes_precedence [of sample_runtime Map.empty None None json_and_individual_env
      EC2Secrets_init json_and_individual_env
      "fst (snd (load sample_runtime Map.empty None None (json_and_individual_env, EC2Secrets_init)))"
      None "''{\"project_id\": \"demo\"}''" "PDict [(''project_id'', PStr ''demo'')]"]
  by (simp add: eval_defs json_and_individual_env_def lower_true_iff true_spellings_eq)

text \<open>
  Claim C3 as the specification words it fails for a valid document that decodes to an
  empty value: with \<^verbatim>\<open>FIREBASE_CONFIG_JSON={}\<close> and \<^verbatim>\<open>FIREBASE_PROJECT_ID=p\<close> the section
  is built from the individual variable and is not the decoded document.
\<close>

theorem C3_empty_json_counterexample:
  "empty_json_env ''FIREBASE_CONFIG_JSON'' = Some ''{}''
   \<and> json_loads sample_runtime ''{}'' = Some (PDict [])
   \<and> map_of (config (fst (snd (load sample_runtime Map.empty None None
        (empty_json_env, EC2Secrets_init))))) ''firebase'' =
        Some (PDict [(''project_id'', PStr ''p'')])
   \<and> map_of (config (fst (snd (load sample_runtime Map.empty None None
        (empty_json_env, EC2Secrets_init))))) ''firebase'' \<noteq> json_loads sample_runtime ''{}''"
  by (simp add: eval_defs empty_json_env_def lower_true_iff true_spellings_eq)

section \<open>An empty value is an unset variable\<close>

text \<open>
  Every part of \<^verbatim>\<open>load\<close> keeps two environments related when they differ only in that
  one has the empty text where the other has nothing, and \<^verbatim>\<open>_build_config\<close> cannot tell
  them apart unless the variable is one it reads with a default.
\<close>

lemma efu_other: "empty_for_unset k a b \<Longrightarrow> x \<noteq> k \<Longrightarrow> a x = b x"
  by (simp add: empty_for_unset_def)

lemma efu_at: "empty_for_unset k a b \<Longrightarrow> a k = b k \<or> (a k = Some [] \<and> b k = None)"
  by (simp add: empty_for_unset_def)

lemma efu_cases:
  assumes "empty_for_unset k a b"
  shows "a x = b x \<or> (a x = Some [] \<and> b x = None)"
  using efu_other[OF assms, of x] efu_at[OF assms] by (cases "x = k") auto

lemma efu_upd: "empty_for_unset k a b \<Longrightarrow> empty_for_unset k (a(x \<mapsto> v)) (b(x \<mapsto> v))"
  by (simp add: empty_for_unset_def)

lemma efu_start: "empty_for_unset k (env(k \<mapsto> [])) (env(k := None))"
  by (simp add: empty_for_unset_def)

lemma set_if_env_efu:
  "empty_for_unset k a b \<Longrightarrow> set_if_env a var key d = set_if_env b var key d"
  using efu_cases[of k a b var] by (auto simp: set_if_env_def)

lemma firebase_from_json_efu:
  "empty_for_unset k a b \<Longrightarrow> firebase_from_json rt a = firebase_from_json rt b"
  using efu_cases[of k a b "''FIREBASE_CONFIG_JSON''"] by (auto simp: firebase_from_json_def)

lemma fill_firebase_efu:
  "empty_for_unset k a b \<Longrightarrow> fill_firebase a fb m = fill_firebase b fb m"
proof (induction m arbitrary: fb)
  case Nil
  then show ?case by simp
next
  case (Cons kv m)
  obtain key var where kv: "kv = (key, var)" by (cases kv)
  from efu_cases[OF Cons.prems, of var] show ?case
    by (auto simp: kv Cons.IH[OF Cons.prems] split: option.splits sum.splits)
qed

lemma admin_config_efu: "empty_for_unset k a b \<Longrightarrow> admin_config a = admin_config b"
  unfolding admin_config_def by (simp only: set_if_env_efu[of k a b])

lemma aws_config_efu:
  assumes "empty_for_unset k a b" "k \<noteq> ''AWS_DEFAULT_REGION''" "k \<noteq> ''AWS_SECRET_ACCESS_KEY''"
  shows "aws_config a = aws_config b"
proof -
  have r: "a ''AWS_DEFAULT_REGION'' = b ''AWS_DEFAULT_REGION''"
    "a ''AWS_SECRET_ACCESS_KEY'' = b ''AWS_SECRET_ACCESS_KEY''"
    using assms by (simp_all add: efu_other[of k a b])
  from efu_cases[OF assms(1), of "''AWS_ACCESS_KEY_ID''"] show ?thesis
    unfolding aws_config_def getenv_default_def r by auto
qed

lemma app_config_efu:
  assumes "empty_for_unset k a b" "k \<noteq> ''APP_MODE''" "k \<noteq> ''APP_PORT''"
    "k \<noteq> ''APP_HOST''" "k \<noteq> ''APP_DEBUG''"
  shows "app_config a = app_config b"
  by (rule app_config_cong) (rule efu_other[OF assms(1)], simp add: assms(2-5)[symmetric])+

lemma build_config_efu:
  assumes e: "empty_for_unset k a b"
    and k: "k \<noteq> ''AWS_DEFAULT_REGION''" "k \<noteq> ''AWS_SECRET_ACCESS_KEY''"
      "k \<noteq> ''APP_MODE''" "k \<noteq> ''APP_PORT''" "k \<noteq> ''APP_HOST''" "k \<noteq> ''APP_DEBUG''"
  shows "build_config rt a c0 = build_config rt b c0"
proof (rule build_config_cong)
  show "set_if_env a ''ANTHROPIC_API_KEY'' ''ANTHROPIC_API_KEY'' c0 =
        set_if_env b ''ANTHROPIC_API_KEY'' ''ANTHROPIC_API_KEY'' c0"
    using e by (rule set_if_env_efu)
  show "firebase_from_json rt a = firebase_from_json rt b"
    using e by (rule firebase_from_json_efu)
  show "fill_firebase a (firebase_from_json rt b) firebase_env_mapping =
        fill_firebase b (firebase_from_json rt b) firebase_env_mapping"
    using e by (rule fill_firebase_efu)
  show "admin_config a = admin_config b" using e by (rule admin_config_efu)
  show "aws_config a = aws_config b" using e k(1,2) by (rule aws_config_efu)
  show "app_config a = app_config b" using e k(3-6) by (rule app_config_efu)
qed

lemma load_env_lines_efu:
  "empty_for_unset k a b \<Longrightarrow> empty_for_unset k (load_env_lines a ls) (load_env_lines b ls)"
proof (induction ls arbitrary: a b)
  case Nil
  then show ?case by simp
next
  case (Cons l ls)
  show ?case
  proof (cases "parse_env_line l")
    case None
    then show ?thesis using Cons.IH[OF Cons.prems] by simp
  next
    case (Some kv)
    obtain key val where kv: "kv = (key, val)" by (cases kv)
    show ?thesis
    proof (cases "putenv_ok key val")
      case True
      have "empty_for_unset k (a(key \<mapsto> val)) (b(key \<mapsto> val))"
        using Cons.prems by (rule efu_upd)
      then have "empty_for_unset k (load_env_lines (a(key \<mapsto> val)) ls)
                   (load_env_lines (b(key \<mapsto> val)) ls)"
        by (rule Cons.IH)
      then show ?thesis using Some kv True by simp
    next
      case False
      then show ?thesis using Some kv Cons.prems by simp
    qed
  qed
qed

lemma load_env_file_efu:
  "empty_for_unset k a b \<Longrightarrow> empty_for_unset k (load_env_file fs a p) (load_env_file fs b p)"
  by (auto simp: load_env_file_def load_env_lines_efu split: option.splits fsentry.splits)

lemma load_firebase_config_efu:
  "empty_for_unset k a b \<Longrightarrow>
     empty_for_unset k (load_firebase_config rt fs a p) (load_firebase_config rt fs b p)"
  by (auto simp: load_firebase_config_def Let_def efu_upd split: option.splits fsentry.splits)

lemma load_first_efu:
  assumes "\<And>a b p. empty_for_unset k a b \<Longrightarrow> empty_for_unset k (loader a p) (loader b p)"
  shows "empty_for_unset k a b \<Longrightarrow>
     empty_for_unset k (load_first loader fs a cands) (load_first loader fs b cands)"
proof (induction cands)
  case Nil
  then show ?case by simp
next
  case (Cons c cands)
  then show ?case by (cases c) (simp_all add: assms)
qed

lemma expanduser_efu:
  "empty_for_unset k a b \<Longrightarrow> k \<noteq> ''HOME'' \<Longrightarrow> expanduser rt a rest = expanduser rt b rest"
  using efu_other[of k a b "''HOME''"] by (simp add: expanduser_def)

lemma load_efu:
  assumes e: "empty_for_unset k a b"
    and k: "k \<noteq> ''HOME''" "k \<noteq> ''AWS_DEFAULT_REGION''" "k \<noteq> ''AWS_SECRET_ACCESS_KEY''"
      "k \<noteq> ''APP_MODE''" "k \<noteq> ''APP_PORT''" "k \<noteq> ''APP_HOST''" "k \<noteq> ''APP_DEBUG''"
  shows "snd (load rt fs env_file config_file (a, self)) =
         snd (load rt fs env_file config_file (b, self))"
proof -
  define a1 where "a1 = load_first (load_env_file fs) fs a (env_paths rt a env_file)"
  define b1 where "b1 = load_first (load_env_file fs) fs b (env_paths rt b env_file)"
  define a2 where "a2 = load_first (load_firebase_config rt fs) fs a1 (firebase_paths rt a1 config_file)"
  define b2 where "b2 = load_first (load_firebase_config rt fs) fs b1 (firebase_paths rt b1 config_file)"
  have p1: "env_paths rt a env_file = env_paths rt b env_file"
    by (simp add: env_paths_def expanduser_efu[OF e k(1)])
  have e1: "empty_for_unset k a1 b1"
    unfolding a1_def b1_def p1
  proof (rule load_first_efu)
    show "\<And>a b p. empty_for_unset k a b \<Longrightarrow>
        empty_for_unset k (load_env_file fs a p) (load_env_file fs b p)"
      by (rule load_env_file_efu)
    show "empty_for_unset k a b" by (rule e)
  qed
  have p2: "firebase_paths rt a1 config_file = firebase_paths rt b1 config_file"
    by (simp add: firebase_paths_def expanduser_efu[OF e1 k(1)])
  have e2: "empty_for_unset k a2 b2"
    unfolding a2_def b2_def p2
  proof (rule load_first_efu)
    show "\<And>a b p. empty_for_unset k a b \<Longrightarrow>
        empty_for_unset k (load_firebase_config rt fs a p) (load_firebase_config rt fs b p)"
      by (rule load_firebase_config_efu)
    show "empty_for_unset k a1 b1" by (rule e1)
  qed
  have bc: "build_config rt a2 (config self) = build_config rt b2 (config self)"
    using e2 k(2-7) by (rule build_config_efu)
  have la: "snd (load rt fs env_file config_file (a, self)) =
      (case build_config rt a2 (config self) of
         (config', err) \<Rightarrow> (case err of
             Some e \<Rightarrow> (self\<lparr>config := config'\<rparr>, Some e)
           | None \<Rightarrow> (self\<lparr>config := config', loaded := True\<rparr>, None)))"
    by (simp add: load_def Let_def a2_def a1_def split: prod.splits option.splits)
  have lb: "snd (load rt fs env_file config_file (b, self)) =
      (case build_config rt b2 (config self) of
         (config', err) \<Rightarrow> (case err of
             Some e \<Rightarrow> (self\<lparr>config := config'\<rparr>, Some e)
           | None \<Rightarrow> (self\<lparr>config := config', loaded := True\<rparr>, None)))"
    by (simp add: load_def Let_def b2_def b1_def split: prod.splits option.splits)
  show ?thesis unfolding la lb bc ..
qed

lemma optional_vars_not_read_raw:
  assumes "k \<in> set optional_vars"
  shows "k \<noteq> ''HOME''" "k \<noteq> ''AWS_DEFAULT_REGION''" "k \<noteq> ''AWS_SECRET_ACCESS_KEY''"
      "k \<noteq> ''APP_MODE''" "k \<noteq> ''APP_PORT''" "k \<noteq> ''APP_HOST''" "k \<noteq> ''APP_DEBUG''"
proof -
  have "''HOME'' \<notin> set optional_vars" "''AWS_DEFAULT_REGION'' \<notin> set optional_vars"
    "''AWS_SECRET_ACCESS_KEY'' \<notin> set optional_vars" "''APP_MODE'' \<notin> set optional_vars"
    "''APP_PORT'' \<notin> set optional_vars" "''APP_HOST'' \<notin> set optional_vars"
    "''APP_DEBUG'' \<notin> set optional_vars"
    by (simp_all add: optional_vars_def firebase_env_mapping_def)
  with assms show "k \<noteq> ''HOME''" "k \<noteq> ''AWS_DEFAULT_REGION''" "k \<noteq> ''AWS_SECRET_ACCESS_KEY''"
      "k \<noteq> ''APP_MODE''" "k \<noteq> ''APP_PORT''" "k \<noteq> ''APP_HOST''" "k \<noteq> ''APP_DEBUG''"
    by blast+
qed


lemma field_keys:
  "fst ` set (List.map_filter
       (\<lambda>(key, var). case env var of
                       None \<Rightarrow> None
                     | Some v \<Rightarrow> if v = [] then None else Some (key, PStr v)) m)
     \<subseteq> fst ` set m"
proof (induction m)
  case Nil
  then show ?case by (simp add: List.map_filter_simps)
next
  case (Cons kv m)
  obtain key var where kv: "kv = (key, var)" by (cases kv)
  from Cons.IH show ?case
    by (cases "env var") (auto simp: kv List.map_filter_simps)
qed

lemma map_filter_field_unset:
  assumes "env var = None \<or> env var = Some []"
  shows "(key, var) \<in> set m \<Longrightarrow> distinct (map fst m) \<Longrightarrow>
     map_of (List.map_filter
       (\<lambda>(key, var). case env var of
                       None \<Rightarrow> None
                     | Some v \<Rightarrow> if v = [] then None else Some (key, PStr v)) m) key = None"
proof (induction m)
  case Nil
  then show ?case by simp
next
  case (Cons kv m)
  obtain key' var' where kv: "kv = (key', var')" by (cases kv)
  show ?case
  proof (cases "(key, var) = kv")
    case True
    with Cons.prems kv have "key \<notin> fst ` set m" by auto
    with field_keys[of env m] have "map_of (List.map_filter
       (\<lambda>(key, var). case env var of
                       None \<Rightarrow> None
                     | Some v \<Rightarrow> if v = [] then None else Some (key, PStr v)) m) key = None"
      by (auto simp: map_of_eq_None_iff)
    with True kv assms show ?thesis by (auto simp: List.map_filter_simps)
  next
    case False
    with Cons.prems have in_m: "(key, var) \<in> set m" and d: "distinct (map fst m)" by auto
    from in_m Cons.prems kv have "key' \<noteq> key" by force
    with Cons.IH[OF in_m d] kv show ?thesis
      by (auto simp: List.map_filter_simps split: option.splits)
  qed
qed

lemma individual_field_unset:
  assumes "(key, var) \<in> set firebase_env_mapping" "env var = None \<or> env var = Some []"
  shows "map_of (individual_fields env) key = None"
proof -
  have "distinct (map fst firebase_env_mapping)" by (simp add: firebase_env_mapping_def)
  with map_filter_field_unset[of env var key firebase_env_mapping] assms show ?thesis
    by (simp add: individual_fields_def)
qed

text \<open>
  Claim C9. For each of \<^verbatim>\<open>ANTHROPIC_API_KEY\<close>, \<^verbatim>\<open>FIREBASE_CONFIG_JSON\<close>, the variables of
  the table, \<^verbatim>\<open>ADMIN_EMAIL\<close>, \<^verbatim>\<open>ADMIN_PASSWORD\<close>, \<^verbatim>\<open>ADMIN_KEY\<close> and \<^verbatim>\<open>AWS_ACCESS_KEY_ID\<close>,
  setting the variable to the empty text gives the same result of \<^verbatim>\<open>_build_config\<close>, and
  the same instance and outcome of \<^verbatim>\<open>load\<close>, as leaving it unset. The field of a variable
  that is empty or unset is omitted, and on a fresh dictionary a section all of whose
  variables are empty or unset is omitted.
\<close>

theorem C9_empty_is_unset:
  "(k \<in> set optional_vars \<longrightarrow>
      build_config rt (env(k \<mapsto> [])) c0 = build_config rt (env(k := None)) c0
      \<and> snd (load rt fs env_file config_file (env(k \<mapsto> []), self)) =
          snd (load rt fs env_file config_file (env(k := None), self)))
   \<and> (env ''ANTHROPIC_API_KEY'' = None \<or> env ''ANTHROPIC_API_KEY'' = Some [] \<longrightarrow>
        map_of (fst (build_config rt env [])) ''ANTHROPIC_API_KEY'' = None)
   \<and> ((\<forall>var \<in> set (''FIREBASE_CONFIG_JSON'' # map snd firebase_env_mapping).
          env var = None \<or> env var = Some []) \<longrightarrow>
        map_of (fst (build_config rt env [])) ''firebase'' = None)
   \<and> ((\<forall>var \<in> set [''ADMIN_EMAIL'', ''ADMIN_PASSWORD'', ''ADMIN_KEY''].
          env var = None \<or> env var = Some []) \<longrightarrow>
        map_of (fst (build_config rt env [])) ''admin'' = None)
   \<and> (\<forall>(key, var) \<in> set firebase_env_mapping.
          env var = None \<or> env var = Some [] \<longrightarrow> map_of (individual_fields env) key = None)
   \<and> (\<forall>(key, var) \<in> set [(''email'', ''ADMIN_EMAIL''), (''password'', ''ADMIN_PASSWORD''),
                           (''key'', ''ADMIN_KEY'')].
          env var = None \<or> env var = Some [] \<longrightarrow> map_of (admin_config env) key = None)
   \<and> (env ''AWS_ACCESS_KEY_ID'' = None \<or> env ''AWS_ACCESS_KEY_ID'' = Some [] \<longrightarrow>
        aws_config env =
          [(''region'', PStr (getenv_default env ''AWS_DEFAULT_REGION'' ''us-east-1''))])"
proof (intro conjI impI)
  assume k: "k \<in> set optional_vars"
  have e: "empty_for_unset k (env(k \<mapsto> [])) (env(k := None))" by (rule efu_start)
  note nk = optional_vars_not_read_raw[OF k]
  show "build_config rt (env(k \<mapsto> [])) c0 = build_config rt (env(k := None)) c0"
    using e nk(2-7) by (rule build_config_efu)
  show "snd (load rt fs env_file config_file (env(k \<mapsto> []), self)) =
          snd (load rt fs env_file config_file (env(k := None), self))"
    using e nk by (rule load_efu)
next
  assume "env ''ANTHROPIC_API_KEY'' = None \<or> env ''ANTHROPIC_API_KEY'' = Some []"
  then show "map_of (fst (build_config rt env [])) ''ANTHROPIC_API_KEY'' = None"
    unfolding build_config_anthropic by auto
next
  assume a: "\<forall>var \<in> set (''FIREBASE_CONFIG_JSON'' # map snd firebase_env_mapping).
          env var = None \<or> env var = Some []"
  show "map_of (fst (build_config rt env [])) ''firebase'' = None"
  proof (rule ccontr)
    assume "map_of (fst (build_config rt env [])) ''firebase'' \<noteq> None"
    then have "map_of (fst (build_config rt env [])) ''firebase'' \<noteq> map_of [] ''firebase''"
      by simp
    then have "\<exists>var \<in> set (''FIREBASE_CONFIG_JSON'' # map snd firebase_env_mapping).
           env var \<noteq> None \<and> env var \<noteq> Some []"
      by (rule build_config_firebase_changed)
    then obtain var where v: "var \<in> set (''FIREBASE_CONFIG_JSON'' # map snd firebase_env_mapping)"
      and nv: "env var \<noteq> None" "env var \<noteq> Some []" by blast
    from a v have "env var = None \<or> env var = Some []" by (rule bspec)
    with nv show False by simp
  qed
next
  assume a: "\<forall>var \<in> set [''ADMIN_EMAIL'', ''ADMIN_PASSWORD'', ''ADMIN_KEY''].
          env var = None \<or> env var = Some []"
  then have e: "admin_config env = []" by (rule admin_config_unset)
  show "map_of (fst (build_config rt env [])) ''admin'' = None"
  proof (rule ccontr)
    assume "map_of (fst (build_config rt env [])) ''admin'' \<noteq> None"
    then have "map_of (fst (build_config rt env [])) ''admin'' \<noteq> map_of [] ''admin''"
      by simp
    then have "admin_config env \<noteq> []" by (rule build_config_admin)
    with e show False by simp
  qed
next
  show "\<forall>(key, var) \<in> set firebase_env_mapping.
          env var = None \<or> env var = Some [] \<longrightarrow> map_of (individual_fields env) key = None"
    using individual_field_unset by blast
next
  show "\<forall>(key, var) \<in> set [(''email'', ''ADMIN_EMAIL''), (''password'', ''ADMIN_PASSWORD''),
                           (''key'', ''ADMIN_KEY'')].
          env var = None \<or> env var = Some [] \<longrightarrow> map_of (admin_config env) key = None"
    by (auto simp: admin_config_def set_if_env_lookup)
next
  assume "env ''AWS_ACCESS_KEY_ID'' = None \<or> env ''AWS_ACCESS_KEY_ID'' = Some []"
  then show "aws_config env =
          [(''region'', PStr (getenv_default env ''AWS_DEFAULT_REGION'' ''us-east-1''))]"
    by (auto simp: aws_config_def)
qed

text \<open>
  \<^verbatim>\<open>ADMIN_EMAIL\<close> set to the empty text loads as the empty environment does, and three
  empty admin variables give no \<^verbatim>\<open>admin\<close> section.
\<close>

theorem C9_empty_is_unset_witness:
  "''ADMIN_EMAIL'' \<in> set optional_vars
   \<and> snd (load sample_runtime Map.empty None None ([''ADMIN_EMAIL'' \<mapsto> []], EC2Secrets_init)) =
       snd (load sample_runtime Map.empty None None (Map.empty, EC2Secrets_init))
   \<and> empty_admin_env ''ADMIN_EMAIL'' = Some [] \<and> empty_admin_env ''ADMIN_PASSWORD'' = Some []
   \<and> empty_admin_env ''ADMIN_KEY'' = Some []
   \<and> map_of (fst (build_config sample_runtime empty_admin_env [])) ''admin'' = None"
  using C9_empty_is_unset [of "''ADMIN_EMAIL''" sample_runtime Map.empty "[]" Map.empty None None
      EC2Secrets_init]
    C9_empty_is_unset [of "''ADMIN_EMAIL''" sample_runtime empty_admin_env "[]" Map.empty None None
      EC2Secrets_init]
  by (simp add: optional_vars_def firebase_env_mapping_def empty_admin_env_def)

end
